theory Spec2Isabelle
  imports Complex_Main
begin

section \<open>Strings and numbers of the source language\<close>

text \<open>
  The sources are TypeScript. A string is modelled as a \<^typ>\<open>string\<close>: a list of code
  units, here the code units 0 to 255. Numbers are modelled as rationals (exact
  arithmetic in place of IEEE doubles); lengths and counters are naturals. Every
  division of the model has a non-zero divisor, which is proved below where it
  matters (\<open>split_re_nonempty\<close>, \<open>getAllNodes_nonempty\<close>).
\<close>

definition is_space :: "char \<Rightarrow> bool" where
  \<comment> \<open>the class \<open>\s\<close> of a regular expression, which is also what \<open>trim\<close> removes\<close>
  "is_space c = (c \<in> set [CHR 0x09, CHR 0x0A, CHR 0x0B, CHR 0x0C, CHR 0x0D, CHR 0x20, CHR 0xA0])"

definition is_upper :: "char \<Rightarrow> bool" where
  "is_upper c = (let n = (of_char c :: nat) in 65 \<le> n \<and> n \<le> 90)"

definition is_lower :: "char \<Rightarrow> bool" where
  "is_lower c = (let n = (of_char c :: nat) in 97 \<le> n \<and> n \<le> 122)"

definition is_letter :: "char \<Rightarrow> bool" where
  \<comment> \<open>the class \<open>[a-zA-Z]\<close>\<close>
  "is_letter c = (is_upper c \<or> is_lower c)"

definition is_digit :: "char \<Rightarrow> bool" where
  \<comment> \<open>the class \<open>[0-9]\<close>\<close>
  "is_digit c = (let n = (of_char c :: nat) in 48 \<le> n \<and> n \<le> 57)"

definition is_hex :: "char \<Rightarrow> bool" where
  \<comment> \<open>the class \<open>[0-9a-fA-F]\<close>\<close>
  "is_hex c = (let n = (of_char c :: nat) in
     (48 \<le> n \<and> n \<le> 57) \<or> (97 \<le> n \<and> n \<le> 102) \<or> (65 \<le> n \<and> n \<le> 70))"

definition toLowerCase_char :: "char \<Rightarrow> char" where
  \<comment> \<open>the letters of the range with a lower-case partner: A-Z and the accented capitals\<close>
  "toLowerCase_char c = (let n = (of_char c :: nat) in
     if (65 \<le> n \<and> n \<le> 90) \<or> (192 \<le> n \<and> n \<le> 214) \<or> (216 \<le> n \<and> n \<le> 222)
     then char_of (n + 32) else c)"

definition toLowerCase :: "string \<Rightarrow> string" where
  "toLowerCase s = map toLowerCase_char s"

definition trim :: "string \<Rightarrow> string" where
  "trim s = rev (dropWhile is_space (rev (dropWhile is_space s)))"

fun startsWith :: "string \<Rightarrow> string \<Rightarrow> bool" where
  "startsWith s [] = True"
| "startsWith [] (p # ps) = False"
| "startsWith (c # cs) (p # ps) = (c = p \<and> startsWith cs ps)"

fun includes_str :: "string \<Rightarrow> string \<Rightarrow> bool" where
  \<comment> \<open>\<open>s.includes(needle)\<close>: the needle occurs in s as a substring\<close>
  "includes_str [] needle = (needle = [])"
| "includes_str (c # cs) needle = (startsWith (c # cs) needle \<or> includes_str cs needle)"

definition digit_char :: "nat \<Rightarrow> char" where
  "digit_char d = char_of (48 + d)"

function decimal :: "nat \<Rightarrow> string \<Rightarrow> string" where
  \<comment> \<open>the decimal digits of n, the last one first, put in front of those collected\<close>
  "decimal n ds =
     (let ds' = digit_char (n mod 10) # ds
      in if n div 10 = 0 then ds' else decimal (n div 10) ds')"
  by pat_completeness auto
termination
  by (relation "measure fst") auto

declare decimal.simps [simp del]

definition count_text :: "nat \<Rightarrow> string" where
  \<comment> \<open>a count in a template literal\<close>
  "count_text n = decimal n []"

fun split_char :: "char \<Rightarrow> string \<Rightarrow> string list" where
  \<comment> \<open>\<open>s.split(',')\<close> with a one-character string separator\<close>
  "split_char sep [] = [[]]"
| "split_char sep (c # cs) =
     (if c = sep then [] # split_char sep cs
      else (case split_char sep cs of [] \<Rightarrow> [[c]] | w # ws \<Rightarrow> (c # w) # ws))"

function split_re :: "(char \<Rightarrow> bool) \<Rightarrow> string \<Rightarrow> string list" where
  \<comment> \<open>\<open>s.split(/[...]+/)\<close>: the pieces between the maximal runs of separator characters\<close>
  "split_re sep s =
     (let w = takeWhile (\<lambda>c. \<not> sep c) s; r = dropWhile (\<lambda>c. \<not> sep c) s
      in if r = [] then [w] else w # split_re sep (dropWhile sep r))"
  by pat_completeness auto
termination
proof (relation "measure (\<lambda>(sep, s). length s)", goal_cases)
  case 1
  show ?case by simp
next
  case (2 sep s w r)
  then have ne: "r \<noteq> []" and rdef: "r = dropWhile (\<lambda>c. \<not> sep c) s"
    by simp_all
  from ne obtain c cs where r: "r = c # cs"
    using list.exhaust by blast
  have "sep (hd r)"
    using ne hd_dropWhile [of "\<lambda>c. \<not> sep c" s] rdef by simp
  then have "dropWhile sep r = dropWhile sep cs"
    using r by simp
  then have "length (dropWhile sep r) \<le> length cs"
    by (simp add: length_dropWhile_le)
  moreover have "length r \<le> length s"
    using rdef by (simp add: length_dropWhile_le)
  ultimately show ?case
    using r by simp
qed

declare split_re.simps [simp del]

section \<open>The stylesheet parser (src/services/cssParser.ts)\<close>

record CSSProperty =
  property :: string
  val :: string
  important :: bool
  pline :: nat

record CSSRule =
  selector :: string
  properties :: "CSSProperty list"
  specificity :: nat
  rline :: nat
  rcolumn :: nat

record ParseStatistics =
  totalRules :: nat
  totalProperties :: nat
  totalSelectors :: nat
  parseTime :: rat

record CSSParseResult =
  rules :: "CSSRule list"
  errors :: "string list"
  warnings :: "string list"
  pstatistics :: ParseStatistics
  isValid :: bool

datatype error = Error string | TypeError string

fun error_text :: "error \<Rightarrow> string" where
  "error_text (Error m) = ''Error: '' @ m"
| "error_text (TypeError m) = ''TypeError: '' @ m"

subsection \<open>Removing comments\<close>

text \<open>
  \<open>cssText.replace(/\/\*[\s\S]*?\*\//g, '')\<close>: every \<open>/*\<close> that is followed, later,
  by a \<open>*/\<close> is removed up to the first such \<open>*/\<close>; an opening without a closing stays.
\<close>

fun after_comment_close :: "string \<Rightarrow> string option" where
  "after_comment_close [] = None"
| "after_comment_close [c] = None"
| "after_comment_close (c # d # cs) =
     (if c = CHR ''*'' \<and> d = CHR ''/'' then Some cs else after_comment_close (d # cs))"

lemma after_comment_close_length:
  "after_comment_close s = Some r \<Longrightarrow> length r < length s"
  by (induction s arbitrary: r rule: after_comment_close.induct) (auto split: if_splits)

function removeComments :: "string \<Rightarrow> string" where
  "removeComments [] = []"
| "removeComments [c] = [c]"
| "removeComments (c # d # cs) =
     (if c = CHR ''/'' \<and> d = CHR ''*'' then
        (case after_comment_close cs of
           Some r \<Rightarrow> removeComments r
         | None \<Rightarrow> c # removeComments (d # cs))
      else c # removeComments (d # cs))"
  by pat_completeness auto
termination
  by (relation "measure length") (auto dest: after_comment_close_length)

subsection \<open>The rule pattern\<close>

text \<open>
  \<open>/([^{]+)\{([^}]+)\}/g\<close>. At a start position the match is forced: the first group is
  the maximal run of characters other than \<open>{\<close> (a shorter run is followed by a
  character that is not \<open>{\<close>), it must be non-empty and be followed by \<open>{\<close>; the second
  group is the maximal non-empty run of characters other than \<open>}\<close>, followed by \<open>}\<close>.
  \<open>exec\<close> takes the leftmost start position that matches and leaves the rest of the
  text for the next call.
\<close>

definition rule_match_at :: "string \<Rightarrow> (string \<times> string \<times> string) option" where
  "rule_match_at s =
     (let g1 = takeWhile (\<lambda>c. c \<noteq> CHR ''{'') s; r1 = dropWhile (\<lambda>c. c \<noteq> CHR ''{'') s
      in if g1 = [] then None
         else (case r1 of
                 [] \<Rightarrow> None
               | _ # b \<Rightarrow>
                  (let g2 = takeWhile (\<lambda>c. c \<noteq> CHR ''}'') b; r2 = dropWhile (\<lambda>c. c \<noteq> CHR ''}'') b
                   in if g2 = [] then None
                      else (case r2 of [] \<Rightarrow> None | _ # rest \<Rightarrow> Some (g1, g2, rest)))))"

fun rule_exec :: "string \<Rightarrow> (string \<times> string \<times> string) option" where
  "rule_exec [] = None"
| "rule_exec (c # cs) =
     (case rule_match_at (c # cs) of Some m \<Rightarrow> Some m | None \<Rightarrow> rule_exec cs)"

lemma rule_match_at_length:
  "rule_match_at s = Some (g1, g2, rest) \<Longrightarrow> length rest < length s"
proof -
  assume a: "rule_match_at s = Some (g1, g2, rest)"
  define r1 where "r1 = dropWhile (\<lambda>c. c \<noteq> CHR ''{'') s"
  from a obtain x b where r1: "r1 = x # b"
    unfolding rule_match_at_def r1_def by (auto simp: Let_def split: if_splits list.splits)
  from a r1 obtain y where r2: "dropWhile (\<lambda>c. c \<noteq> CHR ''}'') b = y # rest"
    unfolding rule_match_at_def r1_def by (auto simp: Let_def split: if_splits list.splits)
  have "length (y # rest) \<le> length b" using r2 length_dropWhile_le by metis
  moreover have "length (x # b) \<le> length s" using r1 r1_def length_dropWhile_le by metis
  ultimately show ?thesis by simp
qed

lemma rule_exec_length:
  "rule_exec s = Some (g1, g2, rest) \<Longrightarrow> length rest < length s"
proof (induction s)
  case Nil
  then show ?case by simp
next
  case (Cons c cs)
  show ?case
  proof (cases "rule_match_at (c # cs)")
    case None
    with Cons show ?thesis by fastforce
  next
    case (Some m)
    with Cons.prems show ?thesis by (auto dest: rule_match_at_length)
  qed
qed

subsection \<open>The declaration pattern\<close>

text \<open>
  \<open>/([a-zA-Z-]+)\s*:\s*([^;]+)(!important)?;?/g\<close>. At a start position: the first
  group is the maximal non-empty run of letters and hyphens, then the maximal run of
  white space, then a colon (a shorter run of either is followed by a character that is
  no colon). After the colon the white space is skipped and the second group is the
  maximal run of characters other than \<open>;\<close>; when nothing is left for it, the pattern
  backtracks one step and the second group is the last white-space character. The
  optional third group is then tried where the second group stopped, and an optional
  \<open>;\<close> closes the match.
\<close>

definition is_prop_char :: "char \<Rightarrow> bool" where
  \<comment> \<open>the class \<open>[a-zA-Z-]\<close>\<close>
  "is_prop_char c = (is_letter c \<or> c = CHR ''-'')"

definition optional_group :: "string \<Rightarrow> string \<Rightarrow> (string option \<times> string)" where
  \<comment> \<open>\<open>(lit)?\<close> at the head of s: the group and the text after it\<close>
  "optional_group lit s =
     (if startsWith s lit then (Some lit, drop (length lit) s) else (None, s))"

definition optional_char :: "char \<Rightarrow> string \<Rightarrow> string" where
  \<comment> \<open>\<open>c?\<close> at the head of s: the text after it\<close>
  "optional_char c s = (case s of [] \<Rightarrow> [] | d # ds \<Rightarrow> if d = c then ds else d # ds)"

definition prop_value_group :: "string \<Rightarrow> (string \<times> string) option" where
  \<comment> \<open>\<open>\s*([^;]+)\<close> at the head of s: the second group and the text after it\<close>
  "prop_value_group s =
     (let ws = takeWhile is_space s; r = dropWhile is_space s
      in if r \<noteq> [] \<and> hd r \<noteq> CHR '';''
         then Some (takeWhile (\<lambda>c. c \<noteq> CHR '';'') r, dropWhile (\<lambda>c. c \<noteq> CHR '';'') r)
         else if ws \<noteq> [] then Some ([last ws], r)
         else None)"

definition prop_match_at :: "string \<Rightarrow> (string \<times> string \<times> string option \<times> string) option" where
  "prop_match_at s =
     (let g1 = takeWhile is_prop_char s;
          r1 = dropWhile is_space (dropWhile is_prop_char s)
      in if g1 = [] then None
         else (case r1 of
                 [] \<Rightarrow> None
               | c # r2 \<Rightarrow>
                   if c \<noteq> CHR '':'' then None
                   else (case prop_value_group r2 of
                           None \<Rightarrow> None
                         | Some (g2, r3) \<Rightarrow>
                             (let (g3, r4) = optional_group ''!important'' r3
                              in Some (g1, g2, g3, optional_char (CHR '';'') r4)))))"

fun prop_exec :: "string \<Rightarrow> (string \<times> string \<times> string option \<times> string) option" where
  "prop_exec [] = None"
| "prop_exec (c # cs) =
     (case prop_match_at (c # cs) of Some m \<Rightarrow> Some m | None \<Rightarrow> prop_exec cs)"

lemma optional_group_length: "optional_group lit s = (g, r) \<Longrightarrow> length r \<le> length s"
  by (auto simp: optional_group_def split: if_splits)

lemma optional_char_length: "length (optional_char c s) \<le> length s"
  by (auto simp: optional_char_def split: list.splits)

lemma prop_value_group_length: "prop_value_group s = Some (g, r) \<Longrightarrow> length r \<le> length s"
  by (auto simp: prop_value_group_def Let_def length_dropWhile_le le_trans [OF length_dropWhile_le length_dropWhile_le] split: if_splits)

lemma takeWhile_nonempty_dropWhile_shorter:
  "takeWhile P s \<noteq> [] \<Longrightarrow> length (dropWhile P s) < length s"
  by (cases s) (auto simp: length_dropWhile_le less_Suc_eq_le split: if_splits)

lemma prop_match_at_length:
  assumes "prop_match_at s = Some (g1, g2, g3, rest)"
  shows "length rest < length s"
proof -
  from assms have g1: "takeWhile is_prop_char s \<noteq> []"
    by (auto simp: prop_match_at_def Let_def split: if_splits)
  from assms obtain r2 where r2: "dropWhile is_space (dropWhile is_prop_char s) = CHR '':'' # r2"
    by (auto simp: prop_match_at_def Let_def split: if_splits list.splits)
  from assms r2 obtain r3 where r3: "prop_value_group r2 = Some (g2, r3)"
    by (auto simp: prop_match_at_def Let_def split: if_splits list.splits option.splits prod.splits)
  from assms r2 r3 obtain r4 where r4: "optional_group ''!important'' r3 = (g3, r4)"
    and rest: "rest = optional_char (CHR '';'') r4"
    by (auto simp: prop_match_at_def Let_def split: if_splits list.splits option.splits prod.splits)
  have "length rest \<le> length r4" using rest optional_char_length by simp
  also have "\<dots> \<le> length r3" using r4 by (rule optional_group_length)
  also have "\<dots> \<le> length r2" using r3 by (rule prop_value_group_length)
  also have "\<dots> < length (CHR '':'' # r2)" by simp
  also have "\<dots> \<le> length (dropWhile is_prop_char s)"
    using r2 length_dropWhile_le by metis
  also have "\<dots> < length s" using g1 by (rule takeWhile_nonempty_dropWhile_shorter)
  finally show ?thesis .
qed

lemma prop_exec_length:
  "prop_exec s = Some (g1, g2, g3, rest) \<Longrightarrow> length rest < length s"
proof (induction s)
  case Nil
  then show ?case by simp
next
  case (Cons c cs)
  show ?case
  proof (cases "prop_match_at (c # cs)")
    case None
    with Cons show ?thesis by fastforce
  next
    case (Some m)
    with Cons.prems show ?thesis by (auto dest: prop_match_at_length)
  qed
qed

subsection \<open>parsePropertiesEnhanced, calculateSpecificity and parse\<close>

function props_loop :: "string \<Rightarrow> nat \<Rightarrow> nat \<Rightarrow> CSSProperty list" where
  \<comment> \<open>the \<open>while ((match = propRegex.exec(declarations)) !== null)\<close> loop\<close>
  "props_loop s startLine lineOffset =
     (case prop_exec s of
        None \<Rightarrow> []
      | Some (m1, m2, m3, rest) \<Rightarrow>
          \<lparr>property = trim m1, val = trim m2,
           important = (case m3 of None \<Rightarrow> False | Some t \<Rightarrow> t \<noteq> []),
           pline = startLine + lineOffset\<rparr>
          # props_loop rest startLine (lineOffset + 1))"
  by pat_completeness auto
termination
  by (relation "measure (\<lambda>(s, startLine, lineOffset). length s)")
     (auto dest: prop_exec_length)

declare props_loop.simps [simp del]

text \<open>
  Nothing in the body of \<open>parsePropertiesEnhanced\<close> throws. Its result is a sum all
  the same, so that the \<open>catch\<close> of the caller is a branch of the model.
\<close>

definition parsePropertiesEnhanced :: "string \<Rightarrow> nat \<Rightarrow> error + CSSProperty list" where
  "parsePropertiesEnhanced declarations startLine = Inr (props_loop declarations startLine 0)"

definition calculateSpecificity :: "string \<Rightarrow> nat" where
  \<comment> \<open>\<open>(selector.match(/.../g) || []).length\<close> is the number of characters of the class\<close>
  "calculateSpecificity sel =
     (let s0 = 0;
          s1 = s0 + length (filter (\<lambda>c. c = CHR ''#'') sel) * 100;
          s2 = s1 + length (filter (\<lambda>c. c = CHR ''.'' \<or> c = CHR '':'' \<or> c = CHR ''['') sel) * 10;
          s3 = s2 + length (filter is_letter sel)
      in s3)"

function parse_loop :: "string \<Rightarrow> nat \<Rightarrow> CSSParseResult \<Rightarrow> CSSParseResult" where
  \<comment> \<open>the \<open>while ((match = ruleRegex.exec(cleanCSS)) !== null)\<close> loop; \<open>continue\<close> skips
      the increment of \<open>lineNumber\<close>\<close>
  "parse_loop s lineNumber result =
     (case rule_exec s of
        None \<Rightarrow> result
      | Some (m1, m2, rest) \<Rightarrow>
          (let sel = trim m1; declarations = trim m2
           in if sel = [] \<or> declarations = [] then
                parse_loop rest lineNumber
                  (result\<lparr>warnings := warnings result
                     @ [''Empty rule at line '' @ count_text lineNumber]\<rparr>)
              else
                (case parsePropertiesEnhanced declarations lineNumber of
                   Inr props \<Rightarrow>
                     parse_loop rest (lineNumber + 1)
                       (result\<lparr>rules := rules result
                           @ [\<lparr>selector = sel, properties = props,
                               specificity = calculateSpecificity sel,
                               rline = lineNumber, rcolumn = 1\<rparr>],
                         pstatistics := (pstatistics result)
                           \<lparr>totalProperties := totalProperties (pstatistics result) + length props,
                            totalSelectors := totalSelectors (pstatistics result)
                              + length (split_char (CHR '','') sel)\<rparr>\<rparr>)
                 | Inl e \<Rightarrow>
                     parse_loop rest (lineNumber + 1)
                       (result\<lparr>errors := errors result
                           @ [''Error parsing rule at line '' @ count_text lineNumber
                              @ '': '' @ error_text e],
                         isValid := False\<rparr>))))"
  by pat_completeness auto
termination
  by (relation "measure (\<lambda>(s, lineNumber, result). length s)")
     (auto dest: rule_exec_length)

declare parse_loop.simps [simp del]

text \<open>
  \<open>parse\<close> reads the clock twice (\<open>performance.now()\<close>): the two readings are
  arguments. Nothing in the outer \<open>try\<close> throws, so its \<open>catch\<close> has no branch.
\<close>

definition initial_result :: CSSParseResult where
  \<comment> \<open>the object \<open>result\<close> that \<open>parse\<close> starts from\<close>
  "initial_result =
     \<lparr>rules = [], errors = [], warnings = [],
      pstatistics = \<lparr>totalRules = 0, totalProperties = 0, totalSelectors = 0, parseTime = 0\<rparr>,
      isValid = True\<rparr>"

definition parse :: "rat \<Rightarrow> rat \<Rightarrow> string \<Rightarrow> CSSParseResult" where
  "parse startTime endTime cssText =
     (let cleanCSS = removeComments cssText;
          result = parse_loop cleanCSS 1 initial_result
      in result\<lparr>pstatistics := (pstatistics result)
           \<lparr>totalRules := length (rules result), parseTime := endTime - startTime\<rparr>\<rparr>)"

section \<open>The enhancement engine (src/services/cssEnhancer.ts)\<close>

subsection \<open>Data\<close>

text \<open>
  Modelled from the spec: the declarations of \<open>FigmaNode\<close> and \<open>FigmaApiResponse\<close>
  (\<open>src/types/figma\<close>) are not among the sources. A design node has an id, a name, a
  type and ordered children; the model gives it the optional attributes that the engine
  reads: \<open>fills\<close>, \<open>style\<close> (typography) and \<open>absoluteBoundingBox\<close>. An attribute
  that is \<open>undefined\<close> is \<open>None\<close>. Of the response the engine reads the document;
  a response without a document (\<open>undefined\<close>) is the empty tree of the spec.
\<close>

record RGB =
  color_r :: rat
  color_g :: rat
  color_b :: rat

record Paint =
  paint_type :: string
  color :: "RGB option"

record TypeStyle =
  fontSize :: "rat option"
  fontWeight :: "rat option"
  fontFamily :: "string option"

record Rect =
  width :: "rat option"
  height :: "rat option"

datatype FigmaNode =
  FigmaNode (node_id: string) (node_name: string) (node_type: string)
    (children: "FigmaNode list option") (fills: "Paint list option")
    (style: "TypeStyle option") (absoluteBoundingBox: "Rect option")

record FigmaApiResponse =
  document :: "FigmaNode option"

datatype MappingStrategy = StrategyName | StrategyClass | StrategyId | StrategyHybrid

record EnhancementOptions =
  strictMatching :: bool
  ignoreColors :: bool
  ignoreTypography :: bool
  ignoreSpacing :: bool
  enableAutoMapping :: bool
  mappingStrategy :: MappingStrategy
  minConfidence :: rat
  maxSuggestions :: int

definition defaultOptions :: EnhancementOptions where
  "defaultOptions =
     \<lparr>strictMatching = False, ignoreColors = False, ignoreTypography = False,
      ignoreSpacing = False, enableAutoMapping = True, mappingStrategy = StrategyHybrid,
      minConfidence = 1 / 2, maxSuggestions = 10\<rparr>"

datatype ConflictType = Color | Typography | Spacing | Layout | Effects

datatype Severity = Low | Medium | High

record StyleConflict =
  ctype :: ConflictType
  cproperty :: string
  figmaValue :: string
  cssValue :: string
  severity :: Severity
  suggestion :: string

datatype MappingMethod = MethodName | MethodClass | MethodId | MethodAuto | MethodManual

record NodeCSSMapping =
  nodeId :: string
  nodeName :: string
  nodeType :: string
  cssRules :: "CSSRule list"
  confidence :: rat
  mappingMethod :: MappingMethod

record EnhancementStatistics =
  totalNodes :: nat
  mappedNodes :: nat
  cssRuleCount :: nat
  conflictCount :: nat
  processingTime :: rat

text \<open>
  The result without its \<open>enhancedCode\<close>, a source text that \<open>generateEnhancedCode\<close>
  fills with \<open>JSON.stringify\<close> of the input and of the mappings and with two time
  stamps; no other field depends on it.
\<close>

record CSSEnhancementResult =
  mappingResults :: "NodeCSSMapping list"
  coverage :: rat
  conflicts :: "StyleConflict list"
  suggestions :: "string list"
  statistics :: EnhancementStatistics

subsection \<open>Utility methods\<close>

fun getAllNodes :: "FigmaNode \<Rightarrow> FigmaNode list" where
  \<comment> \<open>pre-order: the node is pushed first, then each child's nodes in order\<close>
  "getAllNodes (FigmaNode i n t ch fl st bb) =
     FigmaNode i n t ch fl st bb
     # (case ch of None \<Rightarrow> [] | Some cs \<Rightarrow> concat (map getAllNodes cs))"

definition getAllNodes_arity :: nat where
  \<comment> \<open>\<open>this.getAllNodes.length\<close>: the \<open>length\<close> of a function is the number of its
      parameters before the first one with a default value\<close>
  "getAllNodes_arity = 1"

definition math_round :: "rat \<Rightarrow> int" where
  \<comment> \<open>\<open>Math.round\<close>: the nearest integer, a half rounded up\<close>
  "math_round x = \<lfloor>x + 1 / 2\<rfloor>"

definition integer_text :: "int \<Rightarrow> string" where
  \<comment> \<open>an integer in a template literal\<close>
  "integer_text i = (if 0 \<le> i then count_text (nat i) else CHR ''-'' # count_text (nat \<bar>i\<bar>))"

fun fraction_digits :: "nat \<Rightarrow> rat \<Rightarrow> string" where
  \<comment> \<open>the decimal digits of a fraction in [0, 1), at most the given number of them\<close>
  "fraction_digits 0 x = []"
| "fraction_digits (Suc k) x =
     (if x = 0 then []
      else (let d = \<lfloor>x * 10\<rfloor> in digit_char (nat d) # fraction_digits k (x * 10 - of_int d)))"

definition number_to_string :: "rat \<Rightarrow> string" where
  \<comment> \<open>a number in a template literal and \<open>toString()\<close>: decimal notation, which is what
      JavaScript prints for a number with a short decimal expansion and a magnitude
      between \<open>1e-6\<close> and \<open>1e21\<close>\<close>
  "number_to_string x =
     (let a = \<bar>x\<bar>; n = \<lfloor>a\<rfloor>; f = a - of_int n
      in (if x < 0 then ''-'' else [])
         @ count_text (nat n)
         @ (if f = 0 then [] else ''.'' @ fraction_digits 17 f))"

definition extractFigmaColor :: "Paint list option \<Rightarrow> string option" where
  "extractFigmaColor fs =
     (case fs of
        None \<Rightarrow> None
      | Some [] \<Rightarrow> None
      | Some (p # ps) \<Rightarrow>
          (case find (\<lambda>fill. paint_type fill = ''SOLID'') (p # ps) of
             None \<Rightarrow> None
           | Some solidFill \<Rightarrow>
               (case color solidFill of
                  None \<Rightarrow> None
                | Some c \<Rightarrow>
                    Some (''rgb('' @ integer_text (math_round (color_r c * 255)) @ '', ''
                          @ integer_text (math_round (color_g c * 255)) @ '', ''
                          @ integer_text (math_round (color_b c * 255)) @ '')''))))"

text \<open>
  \<open>value.match(/(#[0-9a-fA-F]{6}|#[0-9a-fA-F]{3}|rgb\([^)]+\)|rgba\([^)]+\)|[a-zA-Z]+)/)\<close>:
  the leftmost position where an alternative matches, the alternatives tried in order.
\<close>

definition hex_alternative :: "nat \<Rightarrow> string \<Rightarrow> string option" where
  \<comment> \<open>\<open>#[0-9a-fA-F]{k}\<close> at the head of s\<close>
  "hex_alternative k s =
     (case s of
        [] \<Rightarrow> None
      | c # t \<Rightarrow>
          if c = CHR ''#'' \<and> length (take k t) = k \<and> list_all is_hex (take k t)
          then Some (c # take k t) else None)"

definition call_alternative :: "string \<Rightarrow> string \<Rightarrow> string option" where
  \<comment> \<open>\<open>name\([^)]+\)\<close> at the head of s, for the literal \<open>name(\<close>\<close>
  "call_alternative open_lit s =
     (if startsWith s open_lit then
        (let t = drop (length open_lit) s;
             body = takeWhile (\<lambda>c. c \<noteq> CHR '')'') t;
             r = dropWhile (\<lambda>c. c \<noteq> CHR '')'') t
         in if body \<noteq> [] \<and> r \<noteq> [] then Some (open_lit @ body @ '')'') else None)
      else None)"

definition color_match_at :: "string \<Rightarrow> string option" where
  "color_match_at s =
     (case hex_alternative 6 s of Some m \<Rightarrow> Some m | None \<Rightarrow>
      (case hex_alternative 3 s of Some m \<Rightarrow> Some m | None \<Rightarrow>
       (case call_alternative ''rgb('' s of Some m \<Rightarrow> Some m | None \<Rightarrow>
        (case call_alternative ''rgba('' s of Some m \<Rightarrow> Some m | None \<Rightarrow>
         (if takeWhile is_letter s \<noteq> [] then Some (takeWhile is_letter s) else None)))))"

fun extractCSSColor :: "string \<Rightarrow> string option" where
  "extractCSSColor [] = None"
| "extractCSSColor (c # cs) =
     (case color_match_at (c # cs) of Some m \<Rightarrow> Some m | None \<Rightarrow> extractCSSColor cs)"

definition areColorsEqual :: "string \<Rightarrow> string \<Rightarrow> bool" where
  "areColorsEqual color1 color2 = (toLowerCase color1 = toLowerCase color2)"

definition areColorsimilar :: "string \<Rightarrow> string \<Rightarrow> bool" where
  "areColorsimilar color1 color2 = areColorsEqual color1 color2"

text \<open>
  \<open>calculateStyleSimilarityScore\<close> calls \<open>this.areColorssimilar\<close>. The class has a
  method \<open>areColorsimilar\<close> and none of the name that is called: the property is
  \<open>undefined\<close> and calling it throws a TypeError, after the arguments were evaluated.
\<close>

definition areColorssimilar :: "string option \<Rightarrow> string option \<Rightarrow> error + bool" where
  "areColorssimilar color1 color2 = Inl (TypeError ''this.areColorssimilar is not a function'')"

text \<open>
  \<open>parseFloat\<close>: leading white space, an optional sign, digits with an optional
  fraction, or a fraction alone, and an optional exponent; the longest such prefix
  counts. \<open>None\<close> stands for \<open>NaN\<close> and for the infinities: the comparisons below
  are false on each of them.
\<close>

definition digits_value :: "string \<Rightarrow> nat" where
  "digits_value ds = foldl (\<lambda>acc d. 10 * acc + (of_char d - 48)) 0 ds"

definition exponent_part :: "string \<Rightarrow> int" where
  \<comment> \<open>the exponent at the head of s, 0 when there is none\<close>
  "exponent_part s =
     (case s of
        [] \<Rightarrow> 0
      | c # t \<Rightarrow>
          if c = CHR ''e'' \<or> c = CHR ''E'' then
            (let neg = (t \<noteq> [] \<and> hd t = CHR ''-'');
                 u = (if t \<noteq> [] \<and> (hd t = CHR ''-'' \<or> hd t = CHR ''+'') then tl t else t);
                 ds = takeWhile is_digit u
             in if ds = [] then 0
                else if neg then - int (digits_value ds) else int (digits_value ds))
          else 0)"

definition scale10 :: "rat \<Rightarrow> int \<Rightarrow> rat" where
  "scale10 m e = (if 0 \<le> e then m * 10 ^ nat e else m / 10 ^ nat (- e))"

definition parseFloat :: "string \<Rightarrow> rat option" where
  "parseFloat str =
     (let s0 = dropWhile is_space str;
          neg = (s0 \<noteq> [] \<and> hd s0 = CHR ''-'');
          s = (if s0 \<noteq> [] \<and> (hd s0 = CHR ''-'' \<or> hd s0 = CHR ''+'') then tl s0 else s0)
      in if startsWith s ''Infinity'' then None
         else
           (let ip = takeWhile is_digit s;
                r = dropWhile is_digit s;
                has_point = (r \<noteq> [] \<and> hd r = CHR ''.'');
                fp = (if has_point then takeWhile is_digit (tl r) else []);
                r' = (if has_point then dropWhile is_digit (tl r) else r);
                m = of_nat (digits_value ip) + of_nat (digits_value fp) / 10 ^ length fp
            in if ip = [] \<and> fp = [] then None
               else Some (scale10 (if neg then - m else m) (exponent_part r'))))"

definition truthy_number :: "rat option \<Rightarrow> bool" where
  \<comment> \<open>a number in a condition: defined and not zero\<close>
  "truthy_number x = (case x of None \<Rightarrow> False | Some v \<Rightarrow> v \<noteq> 0)"

definition isTypographySimilar :: "TypeStyle \<Rightarrow> CSSProperty \<Rightarrow> bool" where
  "isTypographySimilar figmaStyle cssProp =
     (if property cssProp = ''font-size'' \<and> truthy_number (fontSize figmaStyle) then
        (case (fontSize figmaStyle, parseFloat (val cssProp)) of
           (Some figmaSize, Some cssSize) \<Rightarrow> \<bar>figmaSize - cssSize\<bar> < 2
         | _ \<Rightarrow> False)
      else False)"

definition isSpacingSimilar :: "Rect \<Rightarrow> CSSProperty \<Rightarrow> bool" where
  "isSpacingSimilar boundingBox cssProp =
     (if property cssProp = ''width'' \<and> truthy_number (width boundingBox) then
        (case (width boundingBox, parseFloat (val cssProp)) of
           (Some figmaWidth, Some cssWidth) \<Rightarrow> \<bar>figmaWidth - cssWidth\<bar> < 5
         | _ \<Rightarrow> False)
      else False)"

definition extractFigmaTypography :: "TypeStyle \<Rightarrow> string \<Rightarrow> string option" where
  "extractFigmaTypography st prop =
     (if prop = ''font-size'' then
        (case fontSize st of
           Some v \<Rightarrow> if v \<noteq> 0 then Some (number_to_string v @ ''px'') else None
         | None \<Rightarrow> None)
      else if prop = ''font-weight'' then
        (case fontWeight st of
           Some v \<Rightarrow> if v \<noteq> 0 then Some (number_to_string v) else None
         | None \<Rightarrow> None)
      else if prop = ''font-family'' then
        (case fontFamily st of
           Some f \<Rightarrow> if f \<noteq> [] then Some f else None
         | None \<Rightarrow> None)
      else None)"

definition getConflictSeverity :: "string \<Rightarrow> string \<Rightarrow> Severity" where
  "getConflictSeverity fv cv =
     (if includes_str fv ''rgb'' \<and> includes_str cv ''rgb'' then Medium else Low)"

subsection \<open>Match scores\<close>

definition is_name_sep :: "char \<Rightarrow> bool" where
  \<comment> \<open>the class \<open>[-_\s]\<close>\<close>
  "is_name_sep c = (c = CHR ''-'' \<or> c = CHR ''_'' \<or> is_space c)"

definition is_selector_sep :: "char \<Rightarrow> bool" where
  \<comment> \<open>the class \<open>[-_\s.#]\<close>\<close>
  "is_selector_sep c = (is_name_sep c \<or> c = CHR ''.'' \<or> c = CHR ''#'')"

definition is_ident_char :: "char \<Rightarrow> bool" where
  \<comment> \<open>the class \<open>[a-zA-Z0-9-_]\<close>\<close>
  "is_ident_char c = (is_letter c \<or> is_digit c \<or> c = CHR ''-'' \<or> c = CHR ''_'')"

function match_idents :: "char \<Rightarrow> string \<Rightarrow> string list" where
  \<comment> \<open>\<open>selector.match(/p[a-zA-Z][a-zA-Z0-9-_]*/g) || []\<close> for the prefix character p\<close>
  "match_idents p [] = []"
| "match_idents p (c # cs) =
     (if c = p \<and> cs \<noteq> [] \<and> is_letter (hd cs)
      then (c # takeWhile is_ident_char cs) # match_idents p (dropWhile is_ident_char cs)
      else match_idents p cs)"
  by pat_completeness auto
termination
  by (relation "measure (\<lambda>(p, s). length s)") (auto simp: length_dropWhile_le less_Suc_eq_le)

definition related :: "string \<Rightarrow> string \<Rightarrow> bool" where
  \<comment> \<open>\<open>a.includes(b) || b.includes(a)\<close>\<close>
  "related a b = (includes_str a b \<or> includes_str b a)"

definition calculateNameMatchScore :: "string \<Rightarrow> string \<Rightarrow> rat" where
  "calculateNameMatchScore name sel =
     (let nameWords = split_re is_name_sep name;
          selectorWords = split_re is_selector_sep sel;
          matches = length (filter (\<lambda>nameWord.
                      list_ex (\<lambda>selWord. related selWord nameWord) selectorWords) nameWords)
      in of_nat matches / of_nat (max (length nameWords) (length selectorWords)))"

definition calculateClassMatchScore :: "string \<Rightarrow> string \<Rightarrow> rat" where
  "calculateClassMatchScore name sel =
     (let classSelectors = match_idents (CHR ''.'') sel;
          nameWords = split_re is_name_sep name;
          matches = length (filter (\<lambda>className.
                      (let cleanClass = drop 1 className
                       in list_ex (\<lambda>word. related cleanClass word) nameWords)) classSelectors)
      in of_nat matches / of_nat (max (length classSelectors) (length nameWords)))"

definition calculateIdMatchScore :: "string \<Rightarrow> string \<Rightarrow> rat" where
  "calculateIdMatchScore name sel =
     (let idSelectors = match_idents (CHR ''#'') sel;
          nameWords = split_re is_name_sep name;
          matches = length (filter (\<lambda>idName.
                      (let cleanId = drop 1 idName
                       in list_ex (\<lambda>word. related cleanId word) nameWords)) idSelectors)
      in of_nat matches / of_nat (max (length idSelectors) (length nameWords)))"

fun color_checks ::
  "FigmaNode \<Rightarrow> CSSProperty list \<Rightarrow> rat \<times> nat \<Rightarrow> error + rat \<times> nat" where
  \<comment> \<open>\<open>colorProps.forEach\<close> on the pair (score, totalChecks)\<close>
  "color_checks node [] st = Inr st"
| "color_checks node (prop # ps) (score, totalChecks) =
     (let totalChecks = totalChecks + 1;
          figmaColor = extractFigmaColor (fills node);
          cssColor = extractCSSColor (val prop)
      in case areColorssimilar figmaColor cssColor of
           Inl e \<Rightarrow> Inl e
         | Inr similar \<Rightarrow>
             color_checks node ps (if similar then score + 3 / 10 else score, totalChecks))"

definition typography_check :: "TypeStyle \<Rightarrow> CSSProperty \<Rightarrow> rat \<times> nat \<Rightarrow> rat \<times> nat" where
  "typography_check st prop = (\<lambda>(score, totalChecks).
     (if isTypographySimilar st prop then score + 2 / 10 else score, totalChecks + 1))"

definition spacing_check :: "Rect \<Rightarrow> CSSProperty \<Rightarrow> rat \<times> nat \<Rightarrow> rat \<times> nat" where
  "spacing_check box prop = (\<lambda>(score, totalChecks).
     (if isSpacingSimilar box prop then score + 1 / 10 else score, totalChecks + 1))"

definition calculateStyleSimilarityScore ::
  "FigmaNode \<Rightarrow> CSSRule \<Rightarrow> EnhancementOptions \<Rightarrow> error + rat" where
  "calculateStyleSimilarityScore node rule options =
     (case (if \<not> ignoreColors options \<and> fills node \<noteq> None then
              color_checks node
                (filter (\<lambda>prop. includes_str (property prop) ''color''
                               \<or> includes_str (property prop) ''background'') (properties rule))
                (0, 0)
            else Inr (0, 0)) of
        Inl e \<Rightarrow> Inl e
      | Inr st1 \<Rightarrow>
          (let st2 = (case style node of
                        Some st \<Rightarrow>
                          if \<not> ignoreTypography options then
                            fold (typography_check st)
                              (filter (\<lambda>prop. property prop \<in> set [''font-size'', ''font-weight'',
                                   ''font-family'', ''line-height'']) (properties rule)) st1
                          else st1
                      | None \<Rightarrow> st1);
               st3 = (case absoluteBoundingBox node of
                        Some box \<Rightarrow>
                          if \<not> ignoreSpacing options then
                            fold (spacing_check box)
                              (filter (\<lambda>prop. property prop \<in> set [''margin'', ''padding'',
                                   ''gap'', ''width'', ''height'']) (properties rule)) st2
                          else st2
                      | None \<Rightarrow> st2)
           in Inr (if snd st3 > 0 then fst st3 / of_nat (snd st3) else 0)))"

definition calculateRuleMatchScore ::
  "FigmaNode \<Rightarrow> CSSRule \<Rightarrow> EnhancementOptions \<Rightarrow> error + rat" where
  "calculateRuleMatchScore node rule options =
     (let sel = toLowerCase (selector rule);
          name = toLowerCase (node_name node);
          score =
            (case mappingStrategy options of
               StrategyName \<Rightarrow> 0 + calculateNameMatchScore name sel
             | StrategyClass \<Rightarrow> 0 + calculateClassMatchScore name sel
             | StrategyId \<Rightarrow> 0 + calculateIdMatchScore name sel
             | StrategyHybrid \<Rightarrow>
                 0 + calculateNameMatchScore name sel * (4 / 10)
                   + calculateClassMatchScore name sel * (4 / 10)
                   + calculateIdMatchScore name sel * (2 / 10))
      in if fills node \<noteq> None then
           (case calculateStyleSimilarityScore node rule options of
              Inl e \<Rightarrow> Inl e
            | Inr bonus \<Rightarrow> Inr (score + bonus))
         else Inr score)"

subsection \<open>Mappings\<close>

text \<open>
  \<open>Array.prototype.sort\<close> is stable, and the comparator below is the difference of two
  scores: whatever algorithm the engine runs, the result is the stably sorted array.
  The model is an insertion sort. The comparator computes the scores again, hence it is
  a computation that may throw.
\<close>

fun insert_by :: "('a \<Rightarrow> 'a \<Rightarrow> error + rat) \<Rightarrow> 'a \<Rightarrow> 'a list \<Rightarrow> error + 'a list" where
  "insert_by cmp x [] = Inr [x]"
| "insert_by cmp x (y # ys) =
     (case cmp x y of
        Inl e \<Rightarrow> Inl e
      | Inr c \<Rightarrow>
          if c \<le> 0 then Inr (x # y # ys)
          else (case insert_by cmp x ys of Inl e \<Rightarrow> Inl e | Inr zs \<Rightarrow> Inr (y # zs)))"

fun sort_by :: "('a \<Rightarrow> 'a \<Rightarrow> error + rat) \<Rightarrow> 'a list \<Rightarrow> error + 'a list" where
  "sort_by cmp [] = Inr []"
| "sort_by cmp (x # xs) =
     (case sort_by cmp xs of Inl e \<Rightarrow> Inl e | Inr ys \<Rightarrow> insert_by cmp x ys)"

fun matching_rules ::
  "FigmaNode \<Rightarrow> EnhancementOptions \<Rightarrow> CSSRule list \<Rightarrow> error + CSSRule list" where
  \<comment> \<open>\<open>cssRules.forEach\<close>: the rules with a positive score, in their order\<close>
  "matching_rules node options [] = Inr []"
| "matching_rules node options (rule # rs) =
     (case calculateRuleMatchScore node rule options of
        Inl e \<Rightarrow> Inl e
      | Inr matchScore \<Rightarrow>
          (case matching_rules node options rs of
             Inl e \<Rightarrow> Inl e
           | Inr ms \<Rightarrow> Inr (if matchScore > 0 then rule # ms else ms)))"

definition score_compare ::
  "FigmaNode \<Rightarrow> EnhancementOptions \<Rightarrow> CSSRule \<Rightarrow> CSSRule \<Rightarrow> error + rat" where
  \<comment> \<open>\<open>(a, b) => score(b) - score(a)\<close>\<close>
  "score_compare node options a b =
     (case calculateRuleMatchScore node b options of
        Inl e \<Rightarrow> Inl e
      | Inr sb \<Rightarrow>
          (case calculateRuleMatchScore node a options of
             Inl e \<Rightarrow> Inl e
           | Inr sa \<Rightarrow> Inr (sb - sa)))"

definition findMatchingCSSRules ::
  "FigmaNode \<Rightarrow> CSSRule list \<Rightarrow> EnhancementOptions \<Rightarrow> error + CSSRule list" where
  "findMatchingCSSRules node rs options =
     (case matching_rules node options rs of
        Inl e \<Rightarrow> Inl e
      | Inr matchingRules \<Rightarrow> sort_by (score_compare node options) matchingRules)"

fun sum_scores ::
  "FigmaNode \<Rightarrow> EnhancementOptions \<Rightarrow> CSSRule list \<Rightarrow> rat \<Rightarrow> error + rat" where
  \<comment> \<open>\<open>rules.reduce((sum, rule) => sum + score(rule), 0)\<close>\<close>
  "sum_scores node options [] acc = Inr acc"
| "sum_scores node options (rule # rs) acc =
     (case calculateRuleMatchScore node rule options of
        Inl e \<Rightarrow> Inl e
      | Inr sc \<Rightarrow> sum_scores node options rs (acc + sc))"

definition genericSelectors :: "string list" where
  "genericSelectors = [''div'', ''span'', ''p'', ''h1'', ''h2'', ''h3'']"

text \<open>
  \<open>calculateMappingConfidence\<close> divides by the number of rules; its one caller passes
  a non-empty list.
\<close>

definition calculateMappingConfidence ::
  "FigmaNode \<Rightarrow> CSSRule list \<Rightarrow> EnhancementOptions \<Rightarrow> error + rat" where
  "calculateMappingConfidence node rs options =
     (case sum_scores node options rs 0 of
        Inl e \<Rightarrow> Inl e
      | Inr scoreSum \<Rightarrow>
          (let avgScore = scoreSum / of_nat (length rs);
               c0 = avgScore;
               c1 = (if list_ex (\<lambda>rule. includes_str (toLowerCase (selector rule))
                                         (toLowerCase (node_name node))) rs
                     then c0 * (12 / 10) else c0);
               c2 = (if list_ex (\<lambda>rule. selector rule \<in> set genericSelectors) rs
                     then c1 * (8 / 10) else c1)
           in Inr (min c2 1)))"

definition determineMappingMethod ::
  "FigmaNode \<Rightarrow> CSSRule list \<Rightarrow> EnhancementOptions \<Rightarrow> MappingMethod" where
  "determineMappingMethod node rs options =
     (let sel = (case rs of [] \<Rightarrow> [] | rule # _ \<Rightarrow> selector rule)
      in if includes_str sel ''#'' then MethodId
         else if includes_str sel ''.'' then MethodClass
         else if includes_str (toLowerCase sel) (toLowerCase (node_name node)) then MethodName
         else if enableAutoMapping options then MethodAuto
         else MethodManual)"

fun map_nodes ::
  "CSSRule list \<Rightarrow> EnhancementOptions \<Rightarrow> FigmaNode list \<Rightarrow> error + NodeCSSMapping list" where
  \<comment> \<open>\<open>allNodes.forEach\<close>: a node adds at most one mapping\<close>
  "map_nodes rs options [] = Inr []"
| "map_nodes rs options (node # ns) =
     (case findMatchingCSSRules node rs options of
        Inl e \<Rightarrow> Inl e
      | Inr matchingRules \<Rightarrow>
          if length matchingRules > 0 then
            (case calculateMappingConfidence node matchingRules options of
               Inl e \<Rightarrow> Inl e
             | Inr conf \<Rightarrow>
                 (case map_nodes rs options ns of
                    Inl e \<Rightarrow> Inl e
                  | Inr ms \<Rightarrow>
                      Inr (if conf \<ge> minConfidence options then
                             \<lparr>nodeId = node_id node, nodeName = node_name node,
                              nodeType = node_type node, cssRules = matchingRules,
                              confidence = conf,
                              mappingMethod = determineMappingMethod node matchingRules options\<rparr>
                             # ms
                           else ms)))
          else map_nodes rs options ns)"

definition createNodeMappings ::
  "FigmaNode \<Rightarrow> CSSRule list \<Rightarrow> EnhancementOptions \<Rightarrow> error + NodeCSSMapping list" where
  "createNodeMappings doc rs options = map_nodes rs options (getAllNodes doc)"

subsection \<open>Conflicts\<close>

definition colorConflict ::
  "FigmaNode \<Rightarrow> CSSProperty \<Rightarrow> EnhancementOptions \<Rightarrow> StyleConflict option" where
  \<comment> \<open>the first \<open>if\<close> of \<open>detectPropertyConflict\<close>\<close>
  "colorConflict node prop options =
     (if includes_str (property prop) ''color'' \<and> fills node \<noteq> None \<and> \<not> ignoreColors options
      then
        (case extractFigmaColor (fills node) of
           None \<Rightarrow> None
         | Some figmaColor \<Rightarrow>
             (case extractCSSColor (val prop) of
                None \<Rightarrow> None
              | Some cssColor \<Rightarrow>
                  if figmaColor \<noteq> [] \<and> cssColor \<noteq> [] \<and> \<not> areColorsEqual figmaColor cssColor
                  then Some \<lparr>ctype = Color, cproperty = property prop,
                             figmaValue = figmaColor, cssValue = cssColor,
                             severity = getConflictSeverity figmaColor cssColor,
                             suggestion = ''Consider using Figma color: '' @ figmaColor\<rparr>
                  else None))
      else None)"

definition typographyConflict ::
  "FigmaNode \<Rightarrow> CSSProperty \<Rightarrow> EnhancementOptions \<Rightarrow> StyleConflict option" where
  \<comment> \<open>the second \<open>if\<close> of \<open>detectPropertyConflict\<close>\<close>
  "typographyConflict node prop options =
     (if property prop \<in> set [''font-size'', ''font-weight'', ''font-family'']
         \<and> \<not> ignoreTypography options
      then
        (case style node of
           None \<Rightarrow> None
         | Some st \<Rightarrow>
             (case extractFigmaTypography st (property prop) of
                None \<Rightarrow> None
              | Some fv \<Rightarrow>
                  if fv \<noteq> [] \<and> val prop \<noteq> fv
                  then Some \<lparr>ctype = Typography, cproperty = property prop,
                             figmaValue = fv, cssValue = val prop,
                             severity = Medium,
                             suggestion = ''Consider using Figma typography: '' @ fv\<rparr>
                  else None))
      else None)"

definition detectPropertyConflict ::
  "FigmaNode \<Rightarrow> CSSProperty \<Rightarrow> EnhancementOptions \<Rightarrow> StyleConflict option" where
  "detectPropertyConflict node prop options =
     (case colorConflict node prop options of
        Some c \<Rightarrow> Some c
      | None \<Rightarrow> typographyConflict node prop options)"

definition detectConflicts ::
  "NodeCSSMapping list \<Rightarrow> FigmaNode \<Rightarrow> EnhancementOptions \<Rightarrow> StyleConflict list" where
  \<comment> \<open>the nested \<open>forEach\<close>: by mapping, then by rule, then by declaration\<close>
  "detectConflicts mappings doc options =
     (let allNodes = getAllNodes doc
      in concat (map (\<lambda>mapping.
           (case find (\<lambda>n. node_id n = nodeId mapping) allNodes of
              None \<Rightarrow> []
            | Some node \<Rightarrow>
                concat (map (\<lambda>rule.
                  List.map_filter (\<lambda>prop. detectPropertyConflict node prop options)
                    (properties rule)) (cssRules mapping)))) mappings))"

subsection \<open>Suggestions and the coordinator\<close>

definition slice0 :: "int \<Rightarrow> 'a list \<Rightarrow> 'a list" where
  \<comment> \<open>\<open>xs.slice(0, n)\<close>: a negative n counts from the end\<close>
  "slice0 n xs = (if n < 0 then take (nat (int (length xs) + n)) xs else take (nat n) xs)"

definition lowCoverageSuggestion :: string where
  "lowCoverageSuggestion =
     ''Low CSS coverage. Consider using more specific selectors or enabling auto-mapping.''"

definition suggestionList :: "NodeCSSMapping list \<Rightarrow> StyleConflict list \<Rightarrow> string list" where
  \<comment> \<open>the local array \<open>suggestions\<close> of \<open>generateSuggestions\<close> before the final slice\<close>
  "suggestionList mappings cs =
     (let s1 = (if length mappings = 0 then
                  [''No CSS mappings found. Consider adjusting your CSS selectors to match Figma node names.'']
                else if (of_nat (length mappings) :: rat) / of_nat getAllNodes_arity < 3 / 10 then
                  [lowCoverageSuggestion]
                else []);
          highSeverityConflicts = filter (\<lambda>c. severity c = High) cs;
          s2 = (if length cs > 0 \<and> length highSeverityConflicts > 0 then
                  [count_text (length highSeverityConflicts)
                   @ '' high-severity conflicts found. Review color and typography differences.'']
                else []);
          lowConfidenceMappings = filter (\<lambda>m. confidence m < 7 / 10) mappings;
          s3 = (if (of_nat (length lowConfidenceMappings) :: rat) > of_nat (length mappings) * (5 / 10)
                then [''Many mappings have low confidence. Consider switching to a different mapping strategy.'']
                else [])
      in s1 @ s2 @ s3)"

definition generateSuggestions ::
  "NodeCSSMapping list \<Rightarrow> StyleConflict list \<Rightarrow> EnhancementOptions \<Rightarrow> string list" where
  "generateSuggestions mappings cs options =
     slice0 (maxSuggestions options) (suggestionList mappings cs)"

text \<open>
  The clock: \<open>enhance\<close> reads \<open>performance.now()\<close> at its start and before it returns,
  and \<open>parse\<close> reads it twice in between. A clock gives the reading of each of the
  four calls.
\<close>

type_synonym clock = "nat \<Rightarrow> rat"

text \<open>
  With no document, \<open>createNodeMappings\<close> passes \<open>undefined\<close> to \<open>getAllNodes\<close>,
  which pushes it and then reads \<open>node.children\<close>: a TypeError. No caller of
  \<open>getAllNodes\<close> looks at the number of nodes before it divides by it.
\<close>

definition absent_document_error :: error where
  "absent_document_error =
     TypeError (''Cannot read properties of undefined (reading '' @ [CHR 0x27]
                @ ''children'' @ [CHR 0x27] @ '')'')"

definition enhance ::
  "clock \<Rightarrow> FigmaApiResponse \<Rightarrow> string \<Rightarrow> EnhancementOptions \<Rightarrow> error + CSSEnhancementResult" where
  "enhance clk figmaData cssText options =
     (let startTime = clk 0;
          cssParseResult = parse (clk 1) (clk 2) cssText
      in if \<not> isValid cssParseResult then Inl (Error ''CSS parsing failed'')
         else
           (case document figmaData of
              None \<Rightarrow> Inl absent_document_error
            | Some doc \<Rightarrow>
                (case createNodeMappings doc (rules cssParseResult) options of
                   Inl e \<Rightarrow> Inl e
                 | Inr ms \<Rightarrow>
                     (let cs = detectConflicts ms doc options;
                          elapsed = clk 3 - startTime
                      in Inr \<lparr>mappingResults = ms,
                              coverage = of_nat (length ms) / of_nat (length (getAllNodes doc)),
                              conflicts = cs,
                              suggestions = generateSuggestions ms cs options,
                              statistics =
                                \<lparr>totalNodes = length (getAllNodes doc),
                                 mappedNodes = length ms,
                                 cssRuleCount = length (rules cssParseResult),
                                 conflictCount = length cs,
                                 processingTime = elapsed\<rparr>\<rparr>))))"

subsection \<open>Notions used in the statements\<close>

text \<open>
  The confidence that \<open>createNodeMappings\<close> computes for a node (none when no rule
  matches the node), whether the node passes the threshold, and the mapping that is
  pushed for it.
\<close>

definition node_confidence ::
  "FigmaNode \<Rightarrow> CSSRule list \<Rightarrow> EnhancementOptions \<Rightarrow> rat option" where
  "node_confidence node rs options =
     (case findMatchingCSSRules node rs options of
        Inl e \<Rightarrow> None
      | Inr matchingRules \<Rightarrow>
          if matchingRules = [] then None
          else (case calculateMappingConfidence node matchingRules options of
                  Inl e \<Rightarrow> None
                | Inr conf \<Rightarrow> Some conf))"

definition accepted :: "CSSRule list \<Rightarrow> EnhancementOptions \<Rightarrow> FigmaNode \<Rightarrow> bool" where
  "accepted rs options node =
     (case node_confidence node rs options of
        None \<Rightarrow> False
      | Some conf \<Rightarrow> conf \<ge> minConfidence options)"

definition mapping_of :: "CSSRule list \<Rightarrow> EnhancementOptions \<Rightarrow> FigmaNode \<Rightarrow> NodeCSSMapping" where
  "mapping_of rs options node =
     (let matchingRules = projr (findMatchingCSSRules node rs options)
      in \<lparr>nodeId = node_id node, nodeName = node_name node, nodeType = node_type node,
          cssRules = matchingRules,
          confidence = the (node_confidence node rs options),
          mappingMethod = determineMappingMethod node matchingRules options\<rparr>)"

definition without_time :: "CSSEnhancementResult \<Rightarrow> CSSEnhancementResult" where
  \<comment> \<open>a result with its measured duration blanked\<close>
  "without_time res = res\<lparr>statistics := (statistics res)\<lparr>processingTime := 0\<rparr>\<rparr>"

subsection \<open>Inputs of the scenarios\<close>

definition clock_zero :: clock where
  "clock_zero = (\<lambda>n. 0)"

definition clock_ticks :: clock where
  "clock_ticks = (\<lambda>n. of_nat n)"

definition scenario_css :: string where
  "scenario_css = ''.header { color: rgb(255,0,0); font-size: 18px; }''"

definition header_plain :: FigmaNode where
  \<comment> \<open>scenario 1: the root \<open>Header\<close>, a frame without children and without fills\<close>
  "header_plain = FigmaNode ''1:1'' ''Header'' ''FRAME'' None None None None"

definition header_blue :: FigmaNode where
  \<comment> \<open>scenario 2: the same root with the solid fill rgb(0,0,255)\<close>
  "header_blue =
     FigmaNode ''1:1'' ''Header'' ''FRAME'' None
       (Some [\<lparr>paint_type = ''SOLID'',
               color = Some \<lparr>color_r = 0, color_g = 0, color_b = 1\<rparr>\<rparr>])
       None None"

definition color_declaration :: CSSProperty where
  "color_declaration =
     \<lparr>property = ''color'', val = ''rgb(255,0,0)'', important = False, pline = 1\<rparr>"

definition scenario_rule :: CSSRule where
  \<comment> \<open>the rule that \<open>parse\<close> returns for the stylesheet of the scenarios\<close>
  "scenario_rule =
     \<lparr>selector = ''.header'',
      properties = [color_declaration,
                    \<lparr>property = ''font-size'', val = ''18px'', important = False, pline = 2\<rparr>],
      specificity = 16, rline = 1, rcolumn = 1\<rparr>"

definition scenario_mapping :: NodeCSSMapping where
  \<comment> \<open>the mapping of the root to that rule, as scenario 1 returns it\<close>
  "scenario_mapping =
     \<lparr>nodeId = ''1:1'', nodeName = ''Header'', nodeType = ''FRAME'',
      cssRules = [scenario_rule], confidence = 18 / 25, mappingMethod = MethodClass\<rparr>"

definition color_conflict :: StyleConflict where
  "color_conflict =
     \<lparr>ctype = Color, cproperty = ''color'', figmaValue = ''rgb(0, 0, 255)'',
      cssValue = ''rgb(255,0,0)'', severity = Medium,
      suggestion = ''Consider using Figma color: rgb(0, 0, 255)''\<rparr>"

definition unterminated_css :: string where
  "unterminated_css = ''.foo { color: red;''"

definition important_css :: string where
  "important_css = ''.a { color: red !important; }''"

definition specificity_css :: string where
  "specificity_css = ''#id.class { color: red }''"

definition leaf :: "string \<Rightarrow> FigmaNode" where
  "leaf i = FigmaNode i ''xyz'' ''FRAME'' None None None None"

definition sparse_tree :: FigmaNode where
  \<comment> \<open>the root \<open>Header\<close> with three children that no class selector names\<close>
  "sparse_tree =
     FigmaNode ''1:1'' ''Header'' ''FRAME'' (Some [leaf ''1:2'', leaf ''1:3'', leaf ''1:4''])
       None None None"

definition sparse_css :: string where
  "sparse_css = ''.header { font-size: 18px; }''"

definition ranking_css :: string where
  \<comment> \<open>three rules for \<open>Header\<close>: the first and the third score the same, the second more\<close>
  "ranking_css = ''.x-header { margin: 0 } .header { padding: 0 } .y-header { gap: 0 }''"

section \<open>Properties of the parser\<close>

lemma prop_value_group_rest:
  assumes "prop_value_group s = Some (g, r)"
  shows "r = [] \<or> hd r = CHR '';''"
proof (cases "dropWhile is_space s \<noteq> [] \<and> hd (dropWhile is_space s) \<noteq> CHR '';''")
  case True
  then have r: "r = dropWhile (\<lambda>c. c \<noteq> CHR '';'') (dropWhile is_space s)"
    using assms by (simp add: prop_value_group_def Let_def)
  show ?thesis
  proof (cases "r = []")
    case False
    then show ?thesis
      using hd_dropWhile [of "\<lambda>c. c \<noteq> CHR '';''" "dropWhile is_space s"] r by simp
  qed simp
next
  case False
  then have "r = dropWhile is_space s"
    using assms by (auto simp: prop_value_group_def Let_def split: if_splits)
  with False show ?thesis by blast
qed

lemma not_startsWith_important: "r = [] \<or> hd r = CHR '';'' \<Longrightarrow> \<not> startsWith r ''!important''"
  by (cases r) auto

lemma prop_match_at_group3:
  assumes "prop_match_at s = Some (g1, g2, g3, rest)"
  shows "g3 = None"
proof -
  from assms obtain r2 r3 where v: "prop_value_group r2 = Some (g2, r3)"
    and g: "fst (optional_group ''!important'' r3) = g3"
    by (auto simp: prop_match_at_def Let_def split: if_splits list.splits option.splits prod.splits)
  from v have "\<not> startsWith r3 ''!important''"
    by (intro not_startsWith_important prop_value_group_rest)
  with g show ?thesis by (simp add: optional_group_def)
qed

lemma prop_exec_group3: "prop_exec s = Some (g1, g2, g3, rest) \<Longrightarrow> g3 = None"
proof (induction s)
  case Nil
  then show ?case by simp
next
  case (Cons c cs)
  show ?case
  proof (cases "prop_match_at (c # cs)")
    case None
    with Cons show ?thesis by simp
  next
    case (Some m)
    with Cons.prems show ?thesis by (auto dest: prop_match_at_group3)
  qed
qed

lemma props_loop_important: "d \<in> set (props_loop s startLine lineOffset) \<Longrightarrow> important d = False"
proof (induction s startLine lineOffset rule: props_loop.induct)
  case (1 s startLine lineOffset)
  show ?case
  proof (cases "prop_exec s")
    case None
    with "1.prems" show ?thesis by (simp add: props_loop.simps)
  next
    case (Some m)
    obtain m1 y where ma: "m = (m1, y)" by (cases m) auto
    obtain m2 z where mb: "y = (m2, z)" by (cases y) auto
    obtain m3 rest where mc: "z = (m3, rest)" by (cases z) auto
    have m: "m = (m1, m2, m3, rest)" using ma mb mc by simp
    have m3: "m3 = None" using Some m prop_exec_group3 by blast
    from "1.prems" Some m m3
    have "important d = False \<or> d \<in> set (props_loop rest startLine (lineOffset + 1))"
      by (subst (asm) props_loop.simps) auto
    then show ?thesis using "1.IH" [OF Some ma [symmetric] mb [symmetric] mc [symmetric]] by blast
  qed
qed

lemma parse_loop_inv:
  assumes warn: "\<And>res w. Q res \<Longrightarrow> Q (res\<lparr>warnings := w\<rparr>)"
    and add: "\<And>res sel decl ln ps. Q res \<Longrightarrow> sel \<noteq> [] \<Longrightarrow> decl \<noteq> [] \<Longrightarrow>
            Q (res\<lparr>rules := rules res
                   @ [\<lparr>selector = sel, properties = props_loop decl ln 0,
                       specificity = calculateSpecificity sel, rline = ln, rcolumn = 1\<rparr>],
                 pstatistics := ps\<rparr>)"
  shows "Q result \<Longrightarrow> Q (parse_loop s lineNumber result)"
proof (induction s lineNumber result rule: parse_loop.induct)
  case (1 s lineNumber result)
  show ?case
  proof (cases "rule_exec s")
    case None
    then have "parse_loop s lineNumber result = result"
      by (simp add: parse_loop.simps)
    then show ?thesis using "1.prems" by simp
  next
    case (Some m)
    obtain m1 y where ma: "m = (m1, y)" by (cases m) auto
    obtain m2 rest where mb: "y = (m2, rest)" by (cases y) auto
    have m: "rule_exec s = Some (m1, m2, rest)" using Some ma mb by simp
    show ?thesis
    proof (cases "trim m1 = [] \<or> trim m2 = []")
      case True
      let ?res = "result\<lparr>warnings := warnings result
                     @ [''Empty rule at line '' @ count_text lineNumber]\<rparr>"
      have a: "Q ?res"
        by (rule warn) (rule "1.prems")
      have b: "Q (parse_loop rest lineNumber ?res)"
        by (rule "1.IH"(1) [OF Some ma [symmetric] mb [symmetric] refl refl True a])
      have u: "parse_loop s lineNumber result = parse_loop rest lineNumber ?res"
        using True by (subst parse_loop.simps) (simp add: m Let_def)
      show ?thesis unfolding u by (rule b)
    next
      case False
      let ?props = "props_loop (trim m2) lineNumber 0"
      let ?res = "result\<lparr>rules := rules result
                           @ [\<lparr>selector = trim m1, properties = ?props,
                               specificity = calculateSpecificity (trim m1),
                               rline = lineNumber, rcolumn = 1\<rparr>],
                         pstatistics := (pstatistics result)
                           \<lparr>totalProperties := totalProperties (pstatistics result) + length ?props,
                            totalSelectors := totalSelectors (pstatistics result)
                              + length (split_char (CHR '','') (trim m1))\<rparr>\<rparr>"
      have pe: "parsePropertiesEnhanced (trim m2) lineNumber = Inr ?props"
        by (simp add: parsePropertiesEnhanced_def)
      have a: "Q ?res"
        using False by (intro add "1.prems") blast+
      have b: "Q (parse_loop rest (lineNumber + 1) ?res)"
        by (rule "1.IH"(3) [OF Some ma [symmetric] mb [symmetric] refl refl False pe a])
      have u: "parse_loop s lineNumber result = parse_loop rest (lineNumber + 1) ?res"
        using False by (subst parse_loop.simps) (simp add: m pe Let_def)
      show ?thesis unfolding u by (rule b)
    qed
  qed
qed

lemma parse_loop_result:
  "parse startTime endTime cssText =
     (parse_loop (removeComments cssText) 1 initial_result)
       \<lparr>pstatistics := (pstatistics (parse_loop (removeComments cssText) 1 initial_result))
          \<lparr>totalRules := length (rules (parse_loop (removeComments cssText) 1 initial_result)),
           parseTime := endTime - startTime\<rparr>\<rparr>"
  by (simp add: parse_def Let_def)

lemma rules_parse:
  "rules (parse t0 t1 css) = rules (parse_loop (removeComments css) 1 initial_result)"
  by (simp add: parse_loop_result)

lemma parse_rules_inv:
  assumes "\<And>sel decl ln. sel \<noteq> [] \<Longrightarrow> decl \<noteq> [] \<Longrightarrow>
            P \<lparr>selector = sel, properties = props_loop decl ln 0,
               specificity = calculateSpecificity sel, rline = ln, rcolumn = 1\<rparr>"
    and "r \<in> set (rules (parse t0 t1 css))"
  shows "P r"
proof -
  have "\<forall>r\<in>set (rules (parse_loop (removeComments css) 1 initial_result)). P r"
  proof (rule parse_loop_inv [where Q = "\<lambda>res. \<forall>r\<in>set (rules res). P r"], goal_cases)
    case (1 res w)
    then show ?case by simp
  next
    case (2 res sel decl ln ps)
    have "P \<lparr>selector = sel, properties = props_loop decl ln 0,
               specificity = calculateSpecificity sel, rline = ln, rcolumn = 1\<rparr>"
      using 2 by (intro assms(1))
    with 2(1) show ?case by auto
  next
    case 3
    show ?case by (simp add: initial_result_def)
  qed
  with assms(2) show ?thesis by (simp add: rules_parse)
qed

lemma parse_isValid: "isValid (parse t0 t1 css)"
proof -
  have "isValid (parse_loop (removeComments css) 1 initial_result)"
    by (rule parse_loop_inv [where Q = isValid]) (simp_all add: initial_result_def)
  then show ?thesis by (simp add: parse_loop_result)
qed

lemma parse_errors: "errors (parse t0 t1 css) = []"
proof -
  have "errors (parse_loop (removeComments css) 1 initial_result) = []"
    by (rule parse_loop_inv [where Q = "\<lambda>res. errors res = []"]) (simp_all add: initial_result_def)
  then show ?thesis by (simp add: parse_loop_result)
qed

lemma length_filter_eq_count_list: "length (filter (\<lambda>c. c = a) xs) = count_list xs a"
  by (induction xs) auto

lemma length_filter_disj3:
  "length (filter (\<lambda>c. c = a \<or> c = b \<or> c = d) xs) = count_list xs a + count_list xs b + count_list xs d"
  if "a \<noteq> b" "a \<noteq> d" "b \<noteq> d"
  using that by (induction xs) auto

lemma calculateSpecificity_formula:
  "calculateSpecificity sel =
     100 * count_list sel (CHR ''#'')
     + 10 * (count_list sel (CHR ''.'') + count_list sel (CHR '':'') + count_list sel (CHR ''[''))
     + length (filter is_letter sel)"
  by (simp add: calculateSpecificity_def Let_def length_filter_eq_count_list length_filter_disj3)


text \<open>
  C4. The specificity that the parser gives a rule is 100 for each \<open>#\<close> of its selector,
  plus 10 for each \<open>.\<close>, \<open>:\<close> and \<open>[\<close>, plus 1 for each letter anywhere in the
  selector; \<open>calculateSpecificity\<close> computes this for every string, and for \<open>#id.class\<close>
  it is 100 + 10 + the seven letters of the string.
\<close>

theorem specificity_formula:
  "(\<forall>r\<in>set (rules (parse t0 t1 css)). specificity r =
      100 * count_list (selector r) (CHR ''#'')
      + 10 * (count_list (selector r) (CHR ''.'') + count_list (selector r) (CHR '':'')
              + count_list (selector r) (CHR ''[''))
      + length (filter is_letter (selector r)))
   \<and> calculateSpecificity sel =
      100 * count_list sel (CHR ''#'')
      + 10 * (count_list sel (CHR ''.'') + count_list sel (CHR '':'') + count_list sel (CHR ''[''))
      + length (filter is_letter sel)
   \<and> calculateSpecificity ''#id.class'' = 100 + 10 + length (filter is_letter ''#id.class'')
   \<and> calculateSpecificity ''#id.class'' = 117"
proof (intro conjI ballI)
  fix r
  assume "r \<in> set (rules (parse t0 t1 css))"
  then show "specificity r =
      100 * count_list (selector r) (CHR ''#'')
      + 10 * (count_list (selector r) (CHR ''.'') + count_list (selector r) (CHR '':'')
              + count_list (selector r) (CHR ''[''))
      + length (filter is_letter (selector r))"
    by (rule parse_rules_inv [rotated]) (simp add: calculateSpecificity_formula)
next
  show "calculateSpecificity sel =
      100 * count_list sel (CHR ''#'')
      + 10 * (count_list sel (CHR ''.'') + count_list sel (CHR '':'') + count_list sel (CHR ''[''))
      + length (filter is_letter sel)"
    by (rule calculateSpecificity_formula)
next
  show "calculateSpecificity ''#id.class'' = 100 + 10 + length (filter is_letter ''#id.class'')"
    by code_simp
next
  show "calculateSpecificity ''#id.class'' = 117"
    by code_simp
qed

lemma specificity_css_rules:
  "rules (parse_loop (removeComments specificity_css) 1 initial_result) =
     [\<lparr>selector = ''#id.class'',
       properties = [\<lparr>property = ''color'', val = ''red'', important = False, pline = 1\<rparr>],
       specificity = 117, rline = 1, rcolumn = 1\<rparr>]"
  by code_simp

theorem specificity_formula_witness:
  "\<exists>r\<in>set (rules (parse 0 1 specificity_css)).
     selector r = ''#id.class'' \<and> specificity r = 117
     \<and> specificity r =
         100 * count_list (selector r) (CHR ''#'')
         + 10 * (count_list (selector r) (CHR ''.'') + count_list (selector r) (CHR '':'')
                 + count_list (selector r) (CHR ''[''))
         + length (filter is_letter (selector r))"
proof -
  have rs: "rules (parse 0 1 specificity_css) =
     [\<lparr>selector = ''#id.class'',
       properties = [\<lparr>property = ''color'', val = ''red'', important = False, pline = 1\<rparr>],
       specificity = 117, rline = 1, rcolumn = 1\<rparr>]"
    unfolding rules_parse by (rule specificity_css_rules)
  from specificity_formula [of 0 1 specificity_css "[]"]
  have "\<forall>r\<in>set (rules (parse 0 1 specificity_css)). specificity r =
      100 * count_list (selector r) (CHR ''#'')
      + 10 * (count_list (selector r) (CHR ''.'') + count_list (selector r) (CHR '':'')
              + count_list (selector r) (CHR ''[''))
      + length (filter is_letter (selector r))"
    by (rule conjunct1)
  then show ?thesis
    unfolding rs by simp
qed

text \<open>
  C10. No declaration that \<open>parse\<close> returns is marked important: the value pattern
  runs up to the semicolon, so the optional \<open>!important\<close> group finds nothing to match.
  A declaration written with \<open>!important\<close> keeps the suffix inside its value.
\<close>

theorem important_never_set:
  "(\<forall>r\<in>set (rules (parse t0 t1 css)). \<forall>d\<in>set (properties r). important d = False)
   \<and> rules (parse t0 t1 important_css) =
       [\<lparr>selector = ''.a'',
         properties = [\<lparr>property = ''color'', val = ''red !important'',
                        important = False, pline = 1\<rparr>],
         specificity = 11, rline = 1, rcolumn = 1\<rparr>]"
proof (intro conjI ballI)
  fix r d
  assume r: "r \<in> set (rules (parse t0 t1 css))" and d: "d \<in> set (properties r)"
  have "\<forall>d\<in>set (properties r). important d = False"
    using r by (rule parse_rules_inv [rotated]) (simp add: props_loop_important)
  with d show "important d = False" by blast
next
  have "rules (parse_loop (removeComments important_css) 1 initial_result) =
       [\<lparr>selector = ''.a'',
         properties = [\<lparr>property = ''color'', val = ''red !important'',
                        important = False, pline = 1\<rparr>],
         specificity = 11, rline = 1, rcolumn = 1\<rparr>]"
    by code_simp
  then show "rules (parse t0 t1 important_css) =
       [\<lparr>selector = ''.a'',
         properties = [\<lparr>property = ''color'', val = ''red !important'',
                        important = False, pline = 1\<rparr>],
         specificity = 11, rline = 1, rcolumn = 1\<rparr>]"
    by (simp add: rules_parse)
qed

theorem important_never_set_witness:
  "\<exists>r\<in>set (rules (parse 0 1 important_css)). \<exists>d\<in>set (properties r).
     val d = ''red !important'' \<and> important d = False"
  using important_never_set [of 0 1 important_css]
  by simp

section \<open>Properties of the engine\<close>

lemma split_re_nonempty: "split_re sep s \<noteq> []"
  by (subst split_re.simps) (simp add: Let_def)

lemma getAllNodes_nonempty: "getAllNodes node \<noteq> []"
  by (cases node) simp

lemma map_nodes_char:
  "map_nodes rs options ns = Inr ms \<Longrightarrow>
   ms = map (mapping_of rs options) (filter (accepted rs options) ns)"
proof (induction ns arbitrary: ms)
  case Nil
  then show ?case by simp
next
  case (Cons node ns)
  from Cons.prems obtain mr where mr: "findMatchingCSSRules node rs options = Inr mr"
    by (auto split: sum.splits)
  show ?case
  proof (cases "mr = []")
    case True
    then have "map_nodes rs options ns = Inr ms"
      using Cons.prems mr by simp
    moreover have "\<not> accepted rs options node"
      using True mr by (simp add: accepted_def node_confidence_def)
    ultimately show ?thesis using Cons.IH by simp
  next
    case False
    from Cons.prems mr False obtain conf where
      conf: "calculateMappingConfidence node mr options = Inr conf"
      by (auto split: sum.splits)
    from Cons.prems mr False conf obtain ms' where
      ms': "map_nodes rs options ns = Inr ms'"
      by (auto split: sum.splits)
    have nc: "node_confidence node rs options = Some conf"
      using mr False conf by (simp add: node_confidence_def)
    have IH: "ms' = map (mapping_of rs options) (filter (accepted rs options) ns)"
      using Cons.IH ms' by simp
    show ?thesis
    proof (cases "conf \<ge> minConfidence options")
      case True
      then have "ms = mapping_of rs options node # ms'"
        using Cons.prems mr False conf ms' nc by (simp add: mapping_of_def)
      moreover have "accepted rs options node"
        using True nc by (simp add: accepted_def)
      ultimately show ?thesis using IH by simp
    next
      case False
      then have "ms = ms'"
        using Cons.prems mr \<open>mr \<noteq> []\<close> conf ms' by simp
      moreover have "\<not> accepted rs options node"
        using False nc by (simp add: accepted_def)
      ultimately show ?thesis using IH by simp
    qed
  qed
qed

lemma matching_rules_char:
  "matching_rules node options rs = Inr ms \<Longrightarrow>
   (\<forall>r\<in>set rs. \<exists>v. calculateRuleMatchScore node r options = Inr v)
   \<and> ms = filter (\<lambda>r. projr (calculateRuleMatchScore node r options) > 0) rs"
proof (induction rs arbitrary: ms)
  case Nil
  then show ?case by simp
next
  case (Cons r rs)
  from Cons.prems obtain v where v: "calculateRuleMatchScore node r options = Inr v"
    by (auto split: sum.splits)
  from Cons.prems v obtain ms' where ms': "matching_rules node options rs = Inr ms'"
    by (auto split: sum.splits)
  from Cons.prems v ms' have ms: "ms = (if v > 0 then r # ms' else ms')"
    by simp
  from Cons.IH [OF ms'] v ms show ?case by auto
qed

lemma insert_by_score:
  assumes "\<forall>y\<in>set (x # ys). \<exists>v. calculateRuleMatchScore node y options = Inr v"
  shows "insert_by (score_compare node options) x ys
         = Inr (insort_key (\<lambda>r. - projr (calculateRuleMatchScore node r options)) x ys)"
  using assms
proof (induction ys)
  case Nil
  then show ?case by simp
next
  case (Cons y ys)
  from Cons.prems obtain vx vy where
    vx: "calculateRuleMatchScore node x options = Inr vx" and
    vy: "calculateRuleMatchScore node y options = Inr vy"
    by auto
  have c: "score_compare node options x y = Inr (vy - vx)"
    by (simp add: score_compare_def vx vy)
  have IH: "insert_by (score_compare node options) x ys
         = Inr (insort_key (\<lambda>r. - projr (calculateRuleMatchScore node r options)) x ys)"
    using Cons by simp
  show ?case
    by (simp add: c IH vx vy)
qed

lemma sort_by_score:
  assumes "\<forall>y\<in>set xs. \<exists>v. calculateRuleMatchScore node y options = Inr v"
  shows "sort_by (score_compare node options) xs
         = Inr (sort_key (\<lambda>r. - projr (calculateRuleMatchScore node r options)) xs)"
  using assms
proof (induction xs)
  case Nil
  then show ?case by simp
next
  case (Cons x xs)
  have IH: "sort_by (score_compare node options) xs
         = Inr (sort_key (\<lambda>r. - projr (calculateRuleMatchScore node r options)) xs)"
    using Cons by simp
  have "\<forall>y\<in>set (x # sort_key (\<lambda>r. - projr (calculateRuleMatchScore node r options)) xs).
          \<exists>v. calculateRuleMatchScore node y options = Inr v"
    using Cons.prems by simp
  from insert_by_score [OF this] IH show ?case by simp
qed

lemma findMatchingCSSRules_char:
  assumes "findMatchingCSSRules node rs options = Inr ms"
  shows "(\<forall>r\<in>set rs. \<exists>v. calculateRuleMatchScore node r options = Inr v)"
    and "ms = sort_key (\<lambda>r. - projr (calculateRuleMatchScore node r options))
               (filter (\<lambda>r. projr (calculateRuleMatchScore node r options) > 0) rs)"
proof -
  from assms obtain m where m: "matching_rules node options rs = Inr m"
    by (auto simp: findMatchingCSSRules_def split: sum.splits)
  from matching_rules_char [OF m]
  have all: "\<forall>r\<in>set rs. \<exists>v. calculateRuleMatchScore node r options = Inr v"
    and mf: "m = filter (\<lambda>r. projr (calculateRuleMatchScore node r options) > 0) rs"
    by simp_all
  show "\<forall>r\<in>set rs. \<exists>v. calculateRuleMatchScore node r options = Inr v" by (rule all)
  have "\<forall>y\<in>set m. \<exists>v. calculateRuleMatchScore node y options = Inr v"
    using all mf by simp
  from sort_by_score [OF this] assms m
  show "ms = sort_key (\<lambda>r. - projr (calculateRuleMatchScore node r options))
               (filter (\<lambda>r. projr (calculateRuleMatchScore node r options) > 0) rs)"
    by (simp add: findMatchingCSSRules_def mf)
qed


lemma createNodeMappings_char:
  assumes "createNodeMappings doc rs options = Inr ms"
  shows "ms = map (mapping_of rs options) (filter (accepted rs options) (getAllNodes doc))"
  using assms unfolding createNodeMappings_def by (rule map_nodes_char)

lemma accepted_confidence:
  assumes "accepted rs options node"
  shows "confidence (mapping_of rs options node) \<ge> minConfidence options"
  using assms by (auto simp: accepted_def mapping_of_def Let_def split: option.splits)

lemma accepted_rules:
  assumes "accepted rs options node"
  shows "\<exists>mr. findMatchingCSSRules node rs options = Inr mr \<and> mr \<noteq> []
              \<and> cssRules (mapping_of rs options node) = mr"
  using assms
  by (auto simp: accepted_def node_confidence_def mapping_of_def Let_def
           split: option.splits sum.splits if_splits)

lemma enhance_Inr:
  assumes "enhance clk \<lparr>document = Some doc\<rparr> css options = Inr res"
  shows "createNodeMappings doc (rules (parse (clk 1) (clk 2) css)) options
           = Inr (mappingResults res)"
    and "coverage res = of_nat (length (mappingResults res))
                          / of_nat (length (getAllNodes doc))"
    and "totalNodes (statistics res) = length (getAllNodes doc)"
    and "mappedNodes (statistics res) = length (mappingResults res)"
  using assms
  by (auto simp: enhance_def Let_def split: if_splits sum.splits)

lemma enhance_mappings:
  assumes "enhance clk \<lparr>document = Some doc\<rparr> css options = Inr res"
  shows "mappingResults res =
           map (mapping_of (rules (parse (clk 1) (clk 2) css)) options)
             (filter (accepted (rules (parse (clk 1) (clk 2) css)) options)
                (getAllNodes doc))"
  by (rule createNodeMappings_char) (rule enhance_Inr(1) [OF assms])

lemma enhance_absent_document:
  "enhance clk \<lparr>document = None\<rparr> css options = Inl absent_document_error"
  by (simp add: enhance_def Let_def parse_isValid)

text \<open>
  C5. When \<open>enhance\<close> returns (the response then has a document, see
  \<open>enhance_absent_document\<close>), every mapping of the result has a confidence of at
  least \<open>minConfidence\<close>. The mappings are those of the nodes that pass the threshold,
  in traversal order: a node whose confidence is below the threshold has no mapping.
\<close>

theorem confidence_threshold:
  assumes "enhance clk \<lparr>document = Some doc\<rparr> css options = Inr res"
  shows "(\<forall>m\<in>set (mappingResults res). confidence m \<ge> minConfidence options)
    \<and> mappingResults res =
        map (mapping_of (rules (parse (clk 1) (clk 2) css)) options)
          (filter (accepted (rules (parse (clk 1) (clk 2) css)) options)
             (getAllNodes doc))
    \<and> (\<forall>n\<in>set (getAllNodes doc). \<forall>c.
          node_confidence n (rules (parse (clk 1) (clk 2) css)) options = Some c
          \<longrightarrow> c < minConfidence options
          \<longrightarrow> \<not> accepted (rules (parse (clk 1) (clk 2) css)) options n)"
proof (intro conjI)
  note ms = enhance_mappings [OF assms]
  show "\<forall>m\<in>set (mappingResults res). confidence m \<ge> minConfidence options"
    unfolding ms by (auto intro: accepted_confidence)
  show "mappingResults res =
        map (mapping_of (rules (parse (clk 1) (clk 2) css)) options)
          (filter (accepted (rules (parse (clk 1) (clk 2) css)) options)
             (getAllNodes doc))"
    by (rule ms)
  show "\<forall>n\<in>set (getAllNodes doc). \<forall>c.
          node_confidence n (rules (parse (clk 1) (clk 2) css)) options = Some c
          \<longrightarrow> c < minConfidence options
          \<longrightarrow> \<not> accepted (rules (parse (clk 1) (clk 2) css)) options n"
    by (simp add: accepted_def)
qed

theorem confidence_threshold_witness:
  "\<exists>res. enhance clock_zero \<lparr>document = Some sparse_tree\<rparr> sparse_css defaultOptions = Inr res
     \<and> length (getAllNodes sparse_tree) = 4
     \<and> map confidence (mappingResults res) = [18 / 25]
     \<and> (\<forall>m\<in>set (mappingResults res). confidence m \<ge> minConfidence defaultOptions)"
proof -
  have "case enhance clock_zero \<lparr>document = Some sparse_tree\<rparr> sparse_css defaultOptions of
          Inl e \<Rightarrow> False
        | Inr res \<Rightarrow> length (getAllNodes sparse_tree) = 4
                      \<and> map confidence (mappingResults res) = [18 / 25]"
    by code_simp
  then obtain res where
    r: "enhance clock_zero \<lparr>document = Some sparse_tree\<rparr> sparse_css defaultOptions = Inr res"
    and p: "length (getAllNodes sparse_tree) = 4"
           "map confidence (mappingResults res) = [18 / 25]"
    by (auto split: sum.splits)
  from confidence_threshold [OF r]
  have q: "\<forall>m\<in>set (mappingResults res). confidence m \<ge> minConfidence defaultOptions"
    by (rule conjunct1)
  show ?thesis
    by (rule exI [of _ res]) (intro conjI r p q)
qed

text \<open>
  C6, as the code has it. When \<open>enhance\<close> returns, the tree has a root: the coverage
  is the number of mappings divided by the number of nodes, which is at least 1, and
  lies between 0 and 1. There is no case for a tree with zero nodes: on a response
  without a document \<open>enhance\<close> returns no coverage at all, it throws a TypeError.
\<close>

theorem coverage_bounds:
  assumes "enhance clk \<lparr>document = Some doc\<rparr> css options = Inr res"
  shows "0 \<le> coverage res \<and> coverage res \<le> 1
    \<and> coverage res = of_nat (mappedNodes (statistics res)) / of_nat (totalNodes (statistics res))
    \<and> totalNodes (statistics res) = length (getAllNodes doc)
    \<and> 1 \<le> totalNodes (statistics res)
    \<and> enhance clk' \<lparr>document = None\<rparr> css' options' = Inl absent_document_error"
proof -
  note e = enhance_Inr [OF assms]
  let ?n = "length (getAllNodes doc)"
  have pos: "0 < ?n"
    using getAllNodes_nonempty [of doc] by simp
  have "length (mappingResults res) \<le> ?n"
    unfolding enhance_mappings [OF assms] by simp
  then have le: "(of_nat (length (mappingResults res)) :: rat) \<le> of_nat ?n"
    by simp
  have "coverage res \<le> 1"
    unfolding e(2) using le pos by (simp add: divide_le_eq_1)
  moreover have "0 \<le> coverage res"
    unfolding e(2) by simp
  moreover have "coverage res
      = of_nat (mappedNodes (statistics res)) / of_nat (totalNodes (statistics res))"
    unfolding e(2) e(3) e(4) by (rule refl)
  moreover have "1 \<le> totalNodes (statistics res)"
    unfolding e(3) using pos by linarith
  moreover have "enhance clk' \<lparr>document = None\<rparr> css' options' = Inl absent_document_error"
    by (rule enhance_absent_document)
  ultimately show ?thesis
    using e(3) by blast
qed

theorem coverage_bounds_witness:
  "\<exists>res. enhance clock_zero \<lparr>document = Some sparse_tree\<rparr> sparse_css defaultOptions = Inr res
     \<and> coverage res = 1 / 4 \<and> 0 \<le> coverage res \<and> coverage res \<le> 1
     \<and> totalNodes (statistics res) = 4"
proof -
  have "case enhance clock_zero \<lparr>document = Some sparse_tree\<rparr> sparse_css defaultOptions of
          Inl e \<Rightarrow> False
        | Inr res \<Rightarrow> coverage res = 1 / 4 \<and> totalNodes (statistics res) = 4"
    by code_simp
  then obtain res where
    r: "enhance clock_zero \<lparr>document = Some sparse_tree\<rparr> sparse_css defaultOptions = Inr res"
    and p: "coverage res = 1 / 4" "totalNodes (statistics res) = 4"
    by (auto split: sum.splits)
  from coverage_bounds [OF r] have q: "0 \<le> coverage res" "coverage res \<le> 1"
    by blast+
  show ?thesis
    by (rule exI [of _ res]) (intro conjI r p q)
qed

theorem empty_tree_counterexample:
  "enhance clock_zero \<lparr>document = None\<rparr> scenario_css defaultOptions
   = Inl (TypeError (''Cannot read properties of undefined (reading '' @ [CHR 0x27]
                     @ ''children'' @ [CHR 0x27] @ '')''))"
  by code_simp

lemma sorted_scores:
  fixes f :: "'a \<Rightarrow> rat"
  shows "sorted_wrt (\<lambda>a b. f b \<le> f a) (sort_key (\<lambda>r. - f r) xs)"
proof -
  have "sorted (map (\<lambda>r. - f r) (sort_key (\<lambda>r. - f r) xs))"
    by (rule sorted_sort_key)
  then show ?thesis
    by (simp add: sorted_map)
qed

lemma findMatchingCSSRules_ranked:
  assumes "findMatchingCSSRules node rs options = Inr ms"
  shows "\<forall>rule\<in>set ms. \<exists>v. calculateRuleMatchScore node rule options = Inr v \<and> 0 < v"
    and "sorted_wrt (\<lambda>a b. \<exists>va vb. calculateRuleMatchScore node a options = Inr va
                              \<and> calculateRuleMatchScore node b options = Inr vb \<and> vb \<le> va) ms"
    and "0 < k \<Longrightarrow> filter (\<lambda>r. calculateRuleMatchScore node r options = Inr k) ms
                   = filter (\<lambda>r. calculateRuleMatchScore node r options = Inr k) rs"
proof -
  let ?sc = "\<lambda>r. calculateRuleMatchScore node r options"
  let ?v = "\<lambda>r. projr (?sc r)"
  note c = findMatchingCSSRules_char [OF assms]
  have val: "?sc r = Inr (?v r)" if "r \<in> set rs" for r
    using c(1) that by auto
  have sub: "set ms = {r \<in> set rs. 0 < ?v r}"
    unfolding c(2) by simp
  show "\<forall>rule\<in>set ms. \<exists>v. ?sc rule = Inr v \<and> 0 < v"
    using sub val by auto
  have "sorted_wrt (\<lambda>a b. ?v b \<le> ?v a) ms"
    unfolding c(2) by (rule sorted_scores)
  then show "sorted_wrt (\<lambda>a b. \<exists>va vb. ?sc a = Inr va \<and> ?sc b = Inr vb \<and> vb \<le> va) ms"
  proof (rule sorted_wrt_mono_rel [rotated])
    fix a b
    assume "a \<in> set ms" "b \<in> set ms" "?v b \<le> ?v a"
    then show "\<exists>va vb. ?sc a = Inr va \<and> ?sc b = Inr vb \<and> vb \<le> va"
      using sub val by auto
  qed
  assume k: "0 < k"
  have "filter (\<lambda>r. ?sc r = Inr k) ms = filter (\<lambda>r. - ?v r = - k) ms"
    by (rule filter_cong [OF refl]) (use sub val in auto)
  also have "\<dots> = filter (\<lambda>r. - ?v r = - k) (filter (\<lambda>r. 0 < ?v r) rs)"
    unfolding c(2) by (rule sort_key_stable)
  also have "\<dots> = filter (\<lambda>r. ?sc r = Inr k) rs"
    unfolding filter_filter by (rule filter_cong [OF refl]) (use k val in auto)
  finally show "filter (\<lambda>r. ?sc r = Inr k) ms = filter (\<lambda>r. ?sc r = Inr k) rs" .
qed

text \<open>
  C9. When \<open>enhance\<close> returns (the response then has a document, see
  \<open>enhance_absent_document\<close>), every mapping of the result belongs to a node of the
  tree, and its rules are not empty, all score more than 0 for that node, stand in
  descending order of score, and the rules of each score stand in the order in which
  they were parsed.
\<close>

theorem matched_rules_ranked:
  assumes "enhance clk \<lparr>document = Some doc\<rparr> css options = Inr res"
  shows "\<forall>m\<in>set (mappingResults res). \<exists>node\<in>set (getAllNodes doc).
           nodeId m = node_id node \<and> nodeName m = node_name node
           \<and> cssRules m \<noteq> []
           \<and> (\<forall>rule\<in>set (cssRules m).
                 \<exists>v. calculateRuleMatchScore node rule options = Inr v \<and> 0 < v)
           \<and> sorted_wrt (\<lambda>a b. \<exists>va vb. calculateRuleMatchScore node a options = Inr va
                              \<and> calculateRuleMatchScore node b options = Inr vb \<and> vb \<le> va)
                (cssRules m)
           \<and> (\<forall>k>0. filter (\<lambda>r. calculateRuleMatchScore node r options = Inr k) (cssRules m)
                    = filter (\<lambda>r. calculateRuleMatchScore node r options = Inr k)
                        (rules (parse (clk 1) (clk 2) css)))"
proof
  fix m
  let ?rs = "rules (parse (clk 1) (clk 2) css)"
  assume "m \<in> set (mappingResults res)"
  then obtain node where node: "node \<in> set (getAllNodes doc)"
    and acc: "accepted ?rs options node" and m: "m = mapping_of ?rs options node"
    unfolding enhance_mappings [OF assms] by auto
  from accepted_rules [OF acc] obtain mr where
    mr: "findMatchingCSSRules node ?rs options = Inr mr" "mr \<noteq> []" "cssRules m = mr"
    unfolding m by blast
  note r = findMatchingCSSRules_ranked [OF mr(1)]
  have "nodeId m = node_id node \<and> nodeName m = node_name node"
    unfolding m by (simp add: mapping_of_def Let_def)
  moreover have "\<forall>k>0. filter (\<lambda>r. calculateRuleMatchScore node r options = Inr k) (cssRules m)
                    = filter (\<lambda>r. calculateRuleMatchScore node r options = Inr k) ?rs"
    unfolding mr(3) using r(3) by blast
  ultimately show "\<exists>node\<in>set (getAllNodes doc).
           nodeId m = node_id node \<and> nodeName m = node_name node
           \<and> cssRules m \<noteq> []
           \<and> (\<forall>rule\<in>set (cssRules m).
                 \<exists>v. calculateRuleMatchScore node rule options = Inr v \<and> 0 < v)
           \<and> sorted_wrt (\<lambda>a b. \<exists>va vb. calculateRuleMatchScore node a options = Inr va
                              \<and> calculateRuleMatchScore node b options = Inr vb \<and> vb \<le> va)
                (cssRules m)
           \<and> (\<forall>k>0. filter (\<lambda>r. calculateRuleMatchScore node r options = Inr k) (cssRules m)
                    = filter (\<lambda>r. calculateRuleMatchScore node r options = Inr k) ?rs)"
    using node mr(2) r(1) r(2) unfolding mr(3) by blast
qed

theorem matched_rules_ranked_witness:
  "\<exists>res. enhance clock_zero \<lparr>document = Some header_plain\<rparr> ranking_css defaultOptions = Inr res
     \<and> map (\<lambda>m. map selector (cssRules m)) (mappingResults res)
         = [[''.header'', ''.x-header'', ''.y-header'']]
     \<and> map selector (rules (parse (clock_zero 1) (clock_zero 2) ranking_css))
         = [''.x-header'', ''.header'', ''.y-header'']
     \<and> (\<forall>m\<in>set (mappingResults res). \<exists>node\<in>set (getAllNodes header_plain).
           nodeId m = node_id node \<and> cssRules m \<noteq> []
           \<and> sorted_wrt (\<lambda>a b. \<exists>va vb. calculateRuleMatchScore node a defaultOptions = Inr va
                    \<and> calculateRuleMatchScore node b defaultOptions = Inr vb \<and> vb \<le> va)
                (cssRules m))"
proof -
  have "case enhance clock_zero \<lparr>document = Some header_plain\<rparr> ranking_css defaultOptions of
          Inl e \<Rightarrow> False
        | Inr res \<Rightarrow>
            map (\<lambda>m. map selector (cssRules m)) (mappingResults res)
              = [[''.header'', ''.x-header'', ''.y-header'']]
            \<and> map selector (rules (parse (clock_zero 1) (clock_zero 2) ranking_css))
              = [''.x-header'', ''.header'', ''.y-header'']"
    by code_simp
  then obtain res where
    r: "enhance clock_zero \<lparr>document = Some header_plain\<rparr> ranking_css defaultOptions = Inr res"
    and p: "map (\<lambda>m. map selector (cssRules m)) (mappingResults res)
              = [[''.header'', ''.x-header'', ''.y-header'']]"
           "map selector (rules (parse (clock_zero 1) (clock_zero 2) ranking_css))
              = [''.x-header'', ''.header'', ''.y-header'']"
    by (auto split: sum.splits)
  have q: "\<forall>m\<in>set (mappingResults res). \<exists>node\<in>set (getAllNodes header_plain).
           nodeId m = node_id node \<and> cssRules m \<noteq> []
           \<and> sorted_wrt (\<lambda>a b. \<exists>va vb. calculateRuleMatchScore node a defaultOptions = Inr va
                    \<and> calculateRuleMatchScore node b defaultOptions = Inr vb \<and> vb \<le> va)
                (cssRules m)"
    using matched_rules_ranked [OF r] by fastforce
  show ?thesis
    by (rule exI [of _ res]) (intro conjI r p q)
qed

lemma matching_rules_Nil: "findMatchingCSSRules node [] options = Inr []"
  by (simp add: findMatchingCSSRules_def)

lemma map_nodes_no_rules: "map_nodes [] options ns = Inr []"
  by (induction ns) (simp_all add: matching_rules_Nil)

lemma enhance_no_rules:
  assumes "rules (parse (clk 1) (clk 2) css) = []"
  shows "\<exists>res. enhance clk \<lparr>document = Some doc\<rparr> css options = Inr res
                \<and> mappingResults res = []"
  using assms
  by (simp add: enhance_def Let_def parse_isValid createNodeMappings_def map_nodes_no_rules)

lemma unterminated_loop:
  "parse_loop (removeComments unterminated_css) 1 initial_result = initial_result"
  by code_simp

lemma parse_unterminated:
  "parse t0 t1 unterminated_css =
     initial_result\<lparr>pstatistics := (pstatistics initial_result)\<lparr>parseTime := t1 - t0\<rparr>\<rparr>"
  unfolding parse_loop_result unterminated_loop by (simp add: initial_result_def)

text \<open>
  C8, as the code has it. For the text \<open>.foo { color: red;\<close> the parser returns no
  rule, no warning and no error, and reports the text valid; \<open>enhance\<close> returns a
  result on it for every tree (a response with a document) and all options. The rule pattern needs the closing
  brace, so the loop that writes the warnings never sees the fragment.
\<close>

theorem unterminated_block_silent:
  "rules (parse t0 t1 unterminated_css) = []
   \<and> warnings (parse t0 t1 unterminated_css) = []
   \<and> errors (parse t0 t1 unterminated_css) = []
   \<and> isValid (parse t0 t1 unterminated_css)
   \<and> (\<exists>res. enhance clk \<lparr>document = Some doc\<rparr> unterminated_css options = Inr res
        \<and> mappingResults res = [])"
proof -
  have r: "rules (parse t0 t1 unterminated_css) = []" for t0 t1
    unfolding parse_unterminated by (simp add: initial_result_def)
  have "warnings (parse t0 t1 unterminated_css) = []"
    unfolding parse_unterminated by (simp add: initial_result_def)
  moreover have "errors (parse t0 t1 unterminated_css) = []"
    by (rule parse_errors)
  moreover have "isValid (parse t0 t1 unterminated_css)"
    by (rule parse_isValid)
  moreover have "\<exists>res. enhance clk \<lparr>document = Some doc\<rparr> unterminated_css options = Inr res
        \<and> mappingResults res = []"
    by (rule enhance_no_rules) (rule r)
  ultimately show ?thesis
    using r by blast
qed

theorem unterminated_block_counterexample:
  "\<not> (rules (parse 0 1 unterminated_css) = []
      \<and> warnings (parse 0 1 unterminated_css) \<noteq> []
      \<and> isValid (parse 0 1 unterminated_css))"
  unfolding parse_unterminated by (simp add: initial_result_def)

text \<open>
  C3, as the code has it. Two calls of \<open>enhance\<close> on the same tree, text and options
  agree on whether they throw and, when they return, on the mappings with their order
  and confidences, the coverage, the conflicts, the suggestions and the counts; the
  measured \<open>processingTime\<close> follows the clock.
\<close>

theorem enhance_deterministic_up_to_time:
  "map_sum id without_time (enhance clk d css options)
   = map_sum id without_time (enhance clk' d css options)"
  by (simp add: enhance_def Let_def parse_isValid rules_parse without_time_def
           split: sum.splits option.splits)

theorem enhance_time_counterexample:
  "enhance clock_zero \<lparr>document = Some header_plain\<rparr> scenario_css defaultOptions
   \<noteq> enhance clock_ticks \<lparr>document = Some header_plain\<rparr> scenario_css defaultOptions"
proof -
  have "case enhance clock_zero \<lparr>document = Some header_plain\<rparr> scenario_css defaultOptions of
          Inl e \<Rightarrow> False | Inr res \<Rightarrow> processingTime (statistics res) = 0"
    by code_simp
  moreover
  have "case enhance clock_ticks \<lparr>document = Some header_plain\<rparr> scenario_css defaultOptions of
          Inl e \<Rightarrow> False | Inr res \<Rightarrow> processingTime (statistics res) = 3"
    by code_simp
  ultimately show ?thesis
    by (auto split: sum.splits)
qed

text \<open>
  C1. The claim holds of the design and fails on the code: on the stylesheet and the
  tree of scenario 2 the parser reports the text valid and \<open>enhance\<close> throws all the
  same, a TypeError from the call of the misspelt \<open>areColorssimilar\<close>.
\<close>

theorem enhance_throws_on_valid_stylesheet:
  "isValid (parse (clock_zero 1) (clock_zero 2) scenario_css)
   \<and> enhance clock_zero \<lparr>document = Some header_blue\<rparr> scenario_css defaultOptions
       = Inl (TypeError ''this.areColorssimilar is not a function'')"
proof
  show "isValid (parse (clock_zero 1) (clock_zero 2) scenario_css)"
    by (rule parse_isValid)
  show "enhance clock_zero \<lparr>document = Some header_blue\<rparr> scenario_css defaultOptions
       = Inl (TypeError ''this.areColorssimilar is not a function'')"
    by code_simp
qed

lemma scenario1_result:
  "case enhance clock_zero \<lparr>document = Some header_plain\<rparr> scenario_css defaultOptions of
     Inl e \<Rightarrow> False
   | Inr res \<Rightarrow> mappingResults res = [scenario_mapping] \<and> coverage res = 1
                 \<and> conflicts res = []"
  by code_simp

lemma scenario_rules_loop:
  "rules (parse_loop (removeComments scenario_css) 1 initial_result) = [scenario_rule]"
  by code_simp

text \<open>
  C2, as the code has it. The stylesheet of scenario 2 parses to one rule, and conflict
  detection on the mapping of the root to that rule yields exactly one conflict: of
  kind color, with the design value \<open>rgb(0, 0, 255)\<close>, the CSS value \<open>rgb(255,0,0)\<close>
  (the text of the declaration, as written) and severity medium.
\<close>

theorem scenario2_conflict:
  "rules (parse t0 t1 scenario_css) = [scenario_rule]
   \<and> detectPropertyConflict header_blue color_declaration defaultOptions = Some color_conflict
   \<and> detectConflicts [scenario_mapping] header_blue defaultOptions = [color_conflict]
   \<and> ctype color_conflict = Color
   \<and> figmaValue color_conflict = ''rgb(0, 0, 255)''
   \<and> cssValue color_conflict = ''rgb(255,0,0)''
   \<and> severity color_conflict = Medium"
proof (intro conjI)
  show "rules (parse t0 t1 scenario_css) = [scenario_rule]"
    unfolding rules_parse by (rule scenario_rules_loop)
  show "detectPropertyConflict header_blue color_declaration defaultOptions = Some color_conflict"
    by code_simp
  show "detectConflicts [scenario_mapping] header_blue defaultOptions = [color_conflict]"
    by code_simp
qed (simp_all add: color_conflict_def)

theorem scenario2_counterexample:
  "enhance clock_ticks \<lparr>document = Some header_blue\<rparr> scenario_css defaultOptions
     = Inl (TypeError ''this.areColorssimilar is not a function'')
   \<and> map cssValue (detectConflicts [scenario_mapping] header_blue defaultOptions)
     \<noteq> [''rgb(255, 0, 0)'']"
proof
  show "enhance clock_ticks \<lparr>document = Some header_blue\<rparr> scenario_css defaultOptions
     = Inl (TypeError ''this.areColorssimilar is not a function'')"
    by code_simp
  show "map cssValue (detectConflicts [scenario_mapping] header_blue defaultOptions)
     \<noteq> [''rgb(255, 0, 0)'']"
    by code_simp
qed

lemma decimal_head: "\<exists>d<10. \<exists>t. decimal n ds = digit_char d # t"
proof (induction n ds rule: decimal.induct)
  case (1 n ds)
  show ?case
  proof (cases "n div 10 = 0")
    case True
    then have "decimal n ds = digit_char (n mod 10) # ds"
      by (subst decimal.simps) (simp add: Let_def)
    then show ?thesis by (intro exI [of _ "n mod 10"]) simp
  next
    case False
    then have "decimal n ds = decimal (n div 10) (digit_char (n mod 10) # ds)"
      by (subst decimal.simps) (simp add: Let_def)
    with "1.IH" [OF refl False] show ?thesis by simp
  qed
qed

lemma count_text_head: "\<exists>d<10. \<exists>t. count_text n = digit_char d # t"
  unfolding count_text_def by (rule decimal_head)

lemma digit_char_not_L: "d < 10 \<Longrightarrow> digit_char d \<noteq> CHR ''L''"
proof
  assume d: "d < 10" and "digit_char d = CHR ''L''"
  then have "(of_char (char_of (48 + d)) :: nat) = of_char (CHR ''L'')"
    by (simp add: digit_char_def)
  with d show False by (simp add: of_char_of)
qed

lemma low_coverage_never_suggested:
  "lowCoverageSuggestion \<notin> set (suggestionList ms cs)"
proof -
  have a: "lowCoverageSuggestion \<noteq> count_text k @ t" for k t
  proof -
    obtain d u where "d < 10" "count_text k = digit_char d # u"
      using count_text_head by blast
    then show ?thesis
      using digit_char_not_L [of d] by (auto simp: lowCoverageSuggestion_def)
  qed
  have b: "\<not> (of_nat (length ms) :: rat) / of_nat getAllNodes_arity < 3 / 10" if "ms \<noteq> []"
  proof -
    have "1 \<le> length ms" using that by (cases ms) auto
    then have "(1 :: rat) \<le> of_nat (length ms)" by simp
    then show ?thesis by (simp add: getAllNodes_arity_def)
  qed
  show ?thesis
    using a b by (auto simp: suggestionList_def Let_def lowCoverageSuggestion_def)
qed

text \<open>
  C7. The claim holds of the design and fails on the code: on a tree of four nodes of
  which one is mapped, \<open>enhance\<close> returns one mapping and the coverage 1/4, and the
  suggestions, before and after the cut, lack the one about low coverage. The test
  divides by \<open>this.getAllNodes.length\<close>, the number of parameters of the method, in
  place of the number of nodes: no list of mappings makes it true.
\<close>

theorem low_coverage_suggestion_missing:
  "(case enhance clock_zero \<lparr>document = Some sparse_tree\<rparr> sparse_css defaultOptions of
      Inl e \<Rightarrow> False
    | Inr res \<Rightarrow>
        length (mappingResults res) = 1 \<and> coverage res = 1 / 4 \<and> coverage res < 3 / 10
        \<and> lowCoverageSuggestion \<notin> set (suggestionList (mappingResults res) (conflicts res))
        \<and> suggestions res = [])
   \<and> lowCoverageSuggestion \<notin> set (suggestionList ms cs)"
proof
  show "case enhance clock_zero \<lparr>document = Some sparse_tree\<rparr> sparse_css defaultOptions of
      Inl e \<Rightarrow> False
    | Inr res \<Rightarrow>
        length (mappingResults res) = 1 \<and> coverage res = 1 / 4 \<and> coverage res < 3 / 10
        \<and> lowCoverageSuggestion \<notin> set (suggestionList (mappingResults res) (conflicts res))
        \<and> suggestions res = []"
    by code_simp
  show "lowCoverageSuggestion \<notin> set (suggestionList ms cs)"
    by (rule low_coverage_never_suggested)
qed

end
